theory Spec2Isabelle
  imports Main
begin

section \<open>cronolize: the program of cmd/cronolize/cronolize.go\<close>

text \<open>
  The program is a single \<open>main\<close> function with effects: it reads the process
  environment and the parsed command line, touches the file system, registers a job with
  the cron library and either blocks forever or starts a copy of itself and returns.
  The model threads an explicit process state through \<open>main\<close>; every effect is
  appended to a trace, and every call of \<open>os.Exit\<close> is an outcome.
\<close>

subsection \<open>Constants (lines 31--77)\<close>

definition cronolizerEnvVar :: string where
  "cronolizerEnvVar = ''__CRONOLIZER__''"

definition envVarValueExpected :: string where
  "envVarValueExpected = ''INSTANTIATED''"

definition logFlag :: string where
  "logFlag = ''log''"

definition foregroundFlag :: string where
  "foregroundFlag = ''fg''"

definition helpLines :: "string list" where
  \<open>helpLines =
   [''cronSpec is a five field CRON expression. See below or refer to'',
    ''https://pkg.go.dev/github.com/robfig/cron/v3 for details.'',
    '''',
    ''command is the command string to execute via /bin/sh -c (by default). See -h'',
    ''for more information.'',
    '''',
    ''Examples:'',
    ''cronolize -log /var/log/minute.log "* * * * *" 'date ; echo Hello world' '',
    ''cronolize -shell /bin/bash "@hourly" 'echo "Last run on $(date)" > /var/opt/output' '',
    ''cronolize -log out.log "CRON_TZ=Europe/Stockholm 37 13 * * *" 'touch /var/opt/touchable ; echo "Touched file at $(date)"' '',
    ''cronolize -log /var/logs/nightlyRestart.log "@daily" "echo '' @ [CHR 0x5C] @
      ''"Restarting myservice'' @ [CHR 0x5C] @ ''" ; supervisorctl restart myservice"'',
    '''',
    ''Cron format:'',
    '''',
    ''Field name   | Mandatory? | Allowed values  | Allowed special characters'',
    ''----------   | ---------- | --------------  | --------------------------'',
    ''Minutes      | Yes        | 0-59            | * / , -'',
    ''Hours        | Yes        | 0-23            | * / , -'',
    ''Day of month | Yes        | 1-31            | * / , - ?'',
    ''Month        | Yes        | 1-12 or JAN-DEC | * / , -'',
    ''Day of week  | Yes        | 0-6 or SUN-SAT  | * / , - ?'',
    '''',
    ''Predefined schedules:'',
    '''',
    ''Entry                  | Description                                | Equivalent To'',
    ''-----                  | -----------                                | -------------'',
    ''@yearly (or @annually) | Run once a year, midnight, Jan. 1st        | 0 0 1 1 *'',
    ''@monthly               | Run once a month, midnight, first of month | 0 0 1 * *'',
    ''@weekly                | Run once a week, midnight between Sat/Sun  | 0 0 * * 0'',
    ''@daily (or @midnight)  | Run once a day, midnight                   | 0 0 * * *'',
    ''@hourly                | Run once an hour, beginning of hour        | 0 * * * *'',
    '''',
    ''The parent process will start a copy of itself in the background and exit while'',
    ''the copy (child process) will run cron and block indefinitely until killed'',
    ''(unless the -fg option is issued).'']\<close>

text \<open>
  The three example lines that end in a single quote carry one blank before the closing
  delimiter of the literal, which \<open>butlast\<close> removes again in \<open>helpMsg\<close>; no claim
  depends on the text of the help message.
\<close>

definition newline :: char where
  "newline = CHR 0x0A"

definition helpMsg :: string where
  "helpMsg = newline # concat (map (\<lambda>l. (if l \<noteq> [] \<and> last l = CHR '' '' then butlast l else l) @ [newline]) helpLines)"

subsection \<open>Data\<close>

text \<open>A Go \<open>error\<close> value: its text, and whether \<open>errors.Is(err, fs.ErrNotExist)\<close>.\<close>

datatype goerror = GoError (is_ErrNotExist: bool) (error_text: string)

text \<open>The open-file flags of \<open>os.OpenFile\<close> that the program combines with \<open>|\<close>.\<close>

datatype oflag = O_WRONLY | O_CREATE | O_APPEND | O_TRUNC

text \<open>
  The files a stream variable can refer to: the three standard streams the process
  was started with, or the log file opened at the given path.
\<close>

datatype osfile = StdinFile | StdoutFile | StderrFile | LogFile string

text \<open>
  An \<open>exec.Cmd\<close>: the program, the arguments after the program's name, and the three
  streams. A stream field that is \<open>nil\<close> (here \<open>None\<close>) connects the child to the null
  device; \<open>Env\<close> is never set by the program, so a child inherits the environment of the
  process at the moment it is started.
\<close>

record cmd =
  cmd_Path :: string
  cmd_Args :: "string list"
  cmd_Stdin :: "osfile option"
  cmd_Stdout :: "osfile option"
  cmd_Stderr :: "osfile option"

type_synonym env = "string \<rightharpoonup> string"

text \<open>
  The effects of the program. \<open>CmdStart\<close> is a call of \<open>cmd.Start()\<close>, which does not
  wait; \<open>CmdRun\<close> is a call of \<open>cmd.Run()\<close>, which starts the command and waits for it,
  recorded with the environment the command inherits. \<open>Write\<close> is a write of package
  \<open>fmt\<close> with its text, \<open>LogPrintf\<close> a line of package \<open>log\<close> without its time stamp.
\<close>

datatype event =
    LookupEnv string
  | Unsetenv string
  | Setenv string string
  | Write osfile string
  | LogPrintf osfile string
  | FlagUsage osfile
  | EvalSymlinks string
  | OpenFile string "oflag list" nat
  | Close osfile
  | AddFunc string
  | CronStart
  | CmdStart cmd env
  | CmdRun cmd env

text \<open>
  How a run of the process, or of a part of it, ends: \<open>os.Exit\<close> with a status,
  a normal return of the function, or the endless sleep of lines 226--228.
\<close>

datatype outcome = Exited nat | Returned | Blocked

text \<open>The mutable process state: the environment, the three reassignable globals
  \<open>os.Stdout\<close>, \<open>os.Stderr\<close> and the output of package \<open>log\<close>, and the trace.\<close>

record proc =
  environ :: env
  os_Stdout :: osfile
  os_Stderr :: osfile
  log_Output :: osfile
  trace :: "event list"

text \<open>How a fired command ends: it could not be started, or it ran and exited.\<close>

datatype run_result = SpawnFailed string | ExitStatus nat

text \<open>
  What \<open>flag.Parse()\<close> at line 134 finds on the command line. The flag set is
  \<open>flag.CommandLine\<close>, whose error handling is \<open>flag.ExitOnError\<close>: the call returns
  only for a command line it accepts; for \<open>-h\<close> or \<open>-help\<close> it prints the usage of the
  flags and ends the process with status 0; for an undefined flag or a bad value it prints
  its message and the usage of the flags and ends the process with status 2.
\<close>

datatype parse_result = Parsed | ParseHelp | ParseError string

text \<open>
  What happens in the blocking phase, in the order in which it happens. \<open>Fire\<close>: the
  cron library starts the registered function once more, in a goroutine of its own, and
  the function gets as far as its call of \<open>cmd.Run()\<close>. \<open>Return r\<close>: one of the calls of
  \<open>cmd.Run()\<close> that are under way returns with the result \<open>r\<close>. Any number of calls
  can be under way at the same time; when and how often the library fires is its own
  business and is not constrained here.
\<close>

datatype tick = Fire | Return run_result

text \<open>
  Everything \<open>main\<close> takes from outside: \<open>os.Args\<close>, the environment, the linker-set
  \<open>version\<close>, the values of package \<open>flag\<close> after \<open>flag.Parse()\<close> (the parsing itself
  is library code), and the answers of the operating system and of the cron library.
\<close>

record world =
  os_Args0 :: string
  os_Args1 :: "string list"
  os_Environ :: env
  version :: string
  flag_log :: string
  flag_shell :: string
  flag_shellCommandOption :: string
  flag_truncate :: bool
  flag_q :: bool
  flag_fg :: bool
  flag_Visited :: "string list"
  flag_Args :: "string list"
  filepath_Clean :: "string \<Rightarrow> string"
  filepath_EvalSymlinks :: "string \<Rightarrow> goerror + string"
  os_OpenFile :: "string \<Rightarrow> oflag list \<Rightarrow> goerror option"
  cron_AddFunc :: "string \<Rightarrow> goerror option"
  os_Setenv :: "string \<Rightarrow> string \<Rightarrow> goerror option"
  cmd_Start :: "cmd \<Rightarrow> goerror + nat"

subsection \<open>Primitives\<close>

text \<open>The permission bits \<open>0666\<close> (octal).\<close>

definition perm_0666 :: nat where
  "perm_0666 = 6 * 64 + 6 * 8 + 6"

definition emit :: "event \<Rightarrow> proc \<Rightarrow> proc" where
  "emit e s = s\<lparr>trace := trace s @ [e]\<rparr>"

definition init :: "world \<Rightarrow> proc" where
  "init w = \<lparr>environ = os_Environ w, os_Stdout = StdoutFile, os_Stderr = StderrFile,
             log_Output = StderrFile, trace = []\<rparr>"

text \<open>\<open>strings.Join\<close>.\<close>

fun strings_Join :: "string list \<Rightarrow> string \<Rightarrow> string" where
  "strings_Join [] sep = []"
| "strings_Join [x] sep = x"
| "strings_Join (x # y # ys) sep = x @ sep @ strings_Join (y # ys) sep"

text \<open>\<open>fmt.Fprintln\<close>: the operands separated by blanks, then a newline.\<close>

definition Fprintln :: "osfile \<Rightarrow> string list \<Rightarrow> proc \<Rightarrow> proc" where
  "Fprintln f a s = emit (Write f (strings_Join a '' '' @ [newline])) s"

text \<open>The verb \<open>%d\<close> on a process identifier.\<close>

fun show_nat :: "nat \<Rightarrow> string" where
  "show_nat n =
     (if n < 10 then [''0123456789'' ! n]
      else show_nat (n div 10) @ [''0123456789'' ! (n mod 10)])"

declare show_nat.simps [simp del]

subsection \<open>fatal, fatalf, p, pe (lines 79--112)\<close>

definition fatal :: "string list \<Rightarrow> proc \<Rightarrow> proc \<times> outcome" where
  "fatal a s = (Fprintln (os_Stderr s) (''Error:'' # a) s, Exited 1)"

text \<open>
  \<open>fatalf\<close>, \<open>p\<close> and \<open>pe\<close> take the text already formatted together with the number of
  operands after the format: with none, \<open>fatalf\<close> goes through \<open>fatal\<close>.
\<close>

definition fatalf :: "string \<Rightarrow> nat \<Rightarrow> proc \<Rightarrow> proc \<times> outcome" where
  "fatalf formatted len_a s =
     (if len_a < 1 then fatal [formatted] s
      else (Fprintln (os_Stderr s) [formatted] s, Exited 1))"

definition p_out :: "string \<Rightarrow> proc \<Rightarrow> proc" where
  "p_out formatted s = Fprintln (os_Stdout s) [formatted] s"

definition pe :: "string \<Rightarrow> proc \<Rightarrow> proc" where
  "pe formatted s = Fprintln (os_Stderr s) [formatted] s"

subsection \<open>main (lines 114--250)\<close>

text \<open>Line 134: \<open>flag.Parse()\<close> returns, or prints to standard error and ends the process.\<close>

definition flag_Parse :: "parse_result \<Rightarrow> proc \<Rightarrow> proc \<times> outcome" where
  "flag_Parse pr s =
     (case pr of
        Parsed \<Rightarrow> (s, Returned)
      | ParseHelp \<Rightarrow> (emit (FlagUsage (os_Stderr s)) s, Exited 0)
      | ParseError msg \<Rightarrow>
          (emit (FlagUsage (os_Stderr s)) (Fprintln (os_Stderr s) [msg] s), Exited 2))"

text \<open>Lines 117--125: the marker is looked up, compared, and unset when present.\<close>

definition read_marker :: "proc \<Rightarrow> bool \<times> proc" where
  "read_marker s =
     (let stage = environ s cronolizerEnvVar;
          s1 = emit (LookupEnv cronolizerEnvVar) s;
          hasEnvVar = (stage \<noteq> None);
          isCronProcess = (hasEnvVar \<and> stage = Some envVarValueExpected)
      in if hasEnvVar
         then (isCronProcess,
               emit (Unsetenv cronolizerEnvVar) (s1\<lparr>environ := (environ s1)(cronolizerEnvVar := None)\<rparr>))
         else (isCronProcess, s1))"

text \<open>Lines 136--144: the wrong number of positional arguments.\<close>

definition usage :: "world \<Rightarrow> proc \<Rightarrow> proc \<times> outcome" where
  "usage w s =
     (let s1 = pe (''Welcome to cronolize '' @ version w @ '' (C) 2022 SA6MWA https://github.com/sa6mwa/cronolizer'') s;
          s2 = pe '''' s1;
          s3 = pe (''Syntax: '' @ os_Args0 w @ '' [options] cronSpec command'') s2;
          s4 = pe '''' s3;
          s5 = emit (FlagUsage (os_Stderr s4)) s4;
          s6 = pe helpMsg s5
      in (s6, Exited 1))"

text \<open>Lines 161--191: the log file, unless the foreground flag is true.\<close>

definition resolve_logfile :: "world \<Rightarrow> string \<times> (goerror + string)" where
  "resolve_logfile w =
     (let cleanedPath = filepath_Clean w (flag_log w)
      in (cleanedPath,
          (case filepath_EvalSymlinks w cleanedPath of
             Inl err \<Rightarrow> if \<not> is_ErrNotExist err then Inl err else Inr cleanedPath
           | Inr evaluatedPath \<Rightarrow> Inr evaluatedPath)))"

definition open_flags :: "world \<Rightarrow> oflag list" where
  "open_flags w =
     (if flag_truncate w
      then [O_WRONLY, O_CREATE, O_APPEND, O_TRUNC]
      else [O_WRONLY, O_CREATE, O_APPEND])"

definition open_log :: "world \<Rightarrow> bool \<Rightarrow> proc \<Rightarrow> proc \<times> outcome" where
  "open_log w isCronProcess s =
     (if \<not> flag_fg w then
        (let (cleanedPath, evaluated) = resolve_logfile w;
             s1 = emit (EvalSymlinks cleanedPath) s
         in case evaluated of
              Inl err \<Rightarrow> fatal [error_text err] s1
            | Inr logfile \<Rightarrow>
               (let flags = open_flags w;
                    s2 = emit (OpenFile logfile flags perm_0666) s1
                in case os_OpenFile w logfile flags of
                     Some err \<Rightarrow> fatal [error_text err] s2
                   | None \<Rightarrow>
                      if isCronProcess
                      then (s2\<lparr>os_Stdout := LogFile logfile, os_Stderr := LogFile logfile,
                                log_Output := LogFile logfile\<rparr>, Returned)
                      else (emit (Close (LogFile logfile)) s2, Returned)))
      else (s, Returned))"

text \<open>
  Lines 194--218: the function registered with the cron library, run at every firing.
  \<open>cmd.Run()\<close> starts the command and waits for it; it returns an error when the command
  could not be started and an \<open>*exec.ExitError\<close> when it exited with a status other than 0.
\<close>

definition cmd_Run :: "run_result \<Rightarrow> goerror option" where
  "cmd_Run r =
     (case r of
        SpawnFailed msg \<Rightarrow> Some (GoError False msg)
      | ExitStatus n \<Rightarrow> if n = 0 then None else Some (GoError False (''exit status '' @ show_nat n)))"

definition exec_Command :: "string \<Rightarrow> string list \<Rightarrow> cmd" where
  "exec_Command name arg =
     \<lparr>cmd_Path = name, cmd_Args = arg, cmd_Stdin = None, cmd_Stdout = None, cmd_Stderr = None\<rparr>"

definition onFire :: "world \<Rightarrow> run_result \<Rightarrow> proc \<Rightarrow> proc \<times> outcome" where
  "onFire w r s =
     (let (s1, cmd0) =
            (if length (flag_shellCommandOption w) \<noteq> 0 then
               ((if \<not> flag_q w
                 then emit (LogPrintf (log_Output s)
                        (''Running: '' @ strings_Join [flag_shell w, flag_shellCommandOption w, flag_Args w ! 1] '' '')) s
                 else s),
                exec_Command (flag_shell w) [flag_shellCommandOption w, flag_Args w ! 1])
             else
               ((if \<not> flag_q w
                 then emit (LogPrintf (log_Output s)
                        (''Running: '' @ strings_Join [flag_shell w, flag_Args w ! 1] '' '')) s
                 else s),
                exec_Command (flag_shell w) [flag_Args w ! 1]));
          cmd1 = (if \<not> flag_fg w then cmd0\<lparr>cmd_Stdin := Some StdinFile\<rparr>
                  else cmd0\<lparr>cmd_Stdin := None\<rparr>);
          cmd2 = cmd1\<lparr>cmd_Stdout := Some (os_Stdout s1), cmd_Stderr := Some (os_Stderr s1)\<rparr>;
          s2 = emit (CmdRun cmd2 (environ s1)) s1
      in case cmd_Run r of
           Some err \<Rightarrow> fatal [error_text err] s2
         | None \<Rightarrow> (s2, Returned))"

text \<open>
  The same function in two halves, since other firings can come between the call of
  \<open>cmd.Run()\<close> and its return: lines 195--213 with the call at line 214, and the return of
  the call with lines 215--217. The lemma \<open>onFire_split\<close> proves that the two halves in a
  row are \<open>onFire\<close>.
\<close>

definition onFire_call :: "world \<Rightarrow> proc \<Rightarrow> proc" where
  "onFire_call w s =
     (let (s1, cmd0) =
            (if length (flag_shellCommandOption w) \<noteq> 0 then
               ((if \<not> flag_q w
                 then emit (LogPrintf (log_Output s)
                        (''Running: '' @ strings_Join [flag_shell w, flag_shellCommandOption w, flag_Args w ! 1] '' '')) s
                 else s),
                exec_Command (flag_shell w) [flag_shellCommandOption w, flag_Args w ! 1])
             else
               ((if \<not> flag_q w
                 then emit (LogPrintf (log_Output s)
                        (''Running: '' @ strings_Join [flag_shell w, flag_Args w ! 1] '' '')) s
                 else s),
                exec_Command (flag_shell w) [flag_Args w ! 1]));
          cmd1 = (if \<not> flag_fg w then cmd0\<lparr>cmd_Stdin := Some StdinFile\<rparr>
                  else cmd0\<lparr>cmd_Stdin := None\<rparr>);
          cmd2 = cmd1\<lparr>cmd_Stdout := Some (os_Stdout s1), cmd_Stderr := Some (os_Stderr s1)\<rparr>
      in emit (CmdRun cmd2 (environ s1)) s1)"

definition onFire_return :: "world \<Rightarrow> run_result \<Rightarrow> proc \<Rightarrow> proc \<times> outcome" where
  "onFire_return w r s =
     (case cmd_Run r of
        Some err \<Rightarrow> fatal [error_text err] s
      | None \<Rightarrow> (s, Returned))"

text \<open>Lines 231--249: the process starts itself again and returns from \<open>main\<close>.\<close>

definition relaunch :: "world \<Rightarrow> proc \<Rightarrow> proc \<times> outcome" where
  "relaunch w s =
     (let s1 = emit (Setenv cronolizerEnvVar envVarValueExpected) s
      in case os_Setenv w cronolizerEnvVar envVarValueExpected of
           Some err \<Rightarrow> fatal [error_text err] s1
         | None \<Rightarrow>
            (let s2 = s1\<lparr>environ := (environ s1)(cronolizerEnvVar \<mapsto> envVarValueExpected)\<rparr>;
                 cmd0 = exec_Command (os_Args0 w) (os_Args1 w);
                 cmd1 = cmd0\<lparr>cmd_Stdin := None, cmd_Stdout := None, cmd_Stderr := None\<rparr>;
                 s3 = emit (CmdStart cmd1 (environ s2)) s2
             in case cmd_Start w cmd1 of
                  Inl err \<Rightarrow> fatal [error_text err] s3
                | Inr pid \<Rightarrow>
                   ((if \<not> flag_q w then p_out (''Running cron job as PID '' @ show_nat pid) s3 else s3),
                    Exited 0)))"

text \<open>
  \<open>main\<close> itself, given what \<open>flag.Parse()\<close> finds. The values of the flags in \<open>w\<close> are
  read only after \<open>flag.Parse()\<close> has returned. Returning from \<open>main\<close> ends the process
  with status 0. The outcome \<open>Blocked\<close> is the state after \<open>c.Start()\<close>, in which only
  firings happen.
\<close>

definition main :: "parse_result \<Rightarrow> world \<Rightarrow> proc \<times> outcome" where
  "main pr w =
     (let (isCronProcess, s0) = read_marker (init w)
      in case flag_Parse pr s0 of
           (s1, Exited n) \<Rightarrow> (s1, Exited n)
         | (s1, _) \<Rightarrow>
      if length (flag_Args w) \<noteq> 2 then usage w s1
         else
          (let hasLogFlag = (logFlag \<in> set (flag_Visited w));
               hasForegroundFlag = (foregroundFlag \<in> set (flag_Visited w))
           in if hasLogFlag \<and> hasForegroundFlag
              then fatalf (''Syntax error: you can not combine the -'' @ logFlag @ '' and the -''
                             @ foregroundFlag @ '' option.'') 2 s1
              else
               (case open_log w isCronProcess s1 of
                  (s2, Exited n) \<Rightarrow> (s2, Exited n)
                | (s2, _) \<Rightarrow>
                   (let s3 = emit (AddFunc (flag_Args w ! 0)) s2
                    in case cron_AddFunc w (flag_Args w ! 0) of
                         Some err \<Rightarrow> fatal [error_text err] s3
                       | None \<Rightarrow>
                          if isCronProcess \<or> flag_fg w
                          then (emit CronStart s3, Blocked)
                          else relaunch w s3))))"

text \<open>
  The blocking phase. \<open>main\<close> only registers the function and calls \<open>c.Start()\<close>; from
  then on the library fires it. \<open>firings w ts n s\<close> is the process in state \<open>s\<close>, with
  \<open>n\<close> calls of \<open>cmd.Run()\<close> under way, going through the ticks \<open>ts\<close>. A firing starts
  whatever else is under way; a return that ends in \<open>fatal\<close> ends the process, and with
  it every command still running and every later tick. A \<open>Return\<close> while no call is
  under way is not a possible tick and is passed over.
\<close>

fun firings :: "world \<Rightarrow> tick list \<Rightarrow> nat \<Rightarrow> proc \<Rightarrow> proc \<times> outcome" where
  "firings w [] n s = (s, Blocked)"
| "firings w (Fire # ts) n s = firings w ts (Suc n) (onFire_call w s)"
| "firings w (Return r # ts) n s =
     (if n = 0 then firings w ts n s
      else (case onFire_return w r s of
              (s', Exited c) \<Rightarrow> (s', Exited c)
            | (s', _) \<Rightarrow> firings w ts (n - 1) s'))"

text \<open>The whole process: \<open>main\<close>, and the ticks of the blocking phase when it is reached.\<close>

definition process :: "parse_result \<Rightarrow> world \<Rightarrow> tick list \<Rightarrow> proc \<times> outcome" where
  "process pr w ts =
     (case main pr w of
        (s, Blocked) \<Rightarrow> firings w ts 0 s
      | (s, out) \<Rightarrow> (s, out))"

text \<open>The process on a command line that \<open>flag.Parse()\<close> accepts.\<close>

definition cronolize :: "world \<Rightarrow> tick list \<Rightarrow> proc \<times> outcome" where
  "cronolize w ts = process Parsed w ts"

subsection \<open>Vocabulary for the statements\<close>

text \<open>The events of lines 117--125, which every run starts with.\<close>

definition marker_events :: "world \<Rightarrow> event list" where
  "marker_events w =
     LookupEnv cronolizerEnvVar #
     (if os_Environ w cronolizerEnvVar \<noteq> None then [Unsetenv cronolizerEnvVar] else [])"

definition isCronProcess :: "world \<Rightarrow> bool" where
  "isCronProcess w = (os_Environ w cronolizerEnvVar = Some envVarValueExpected)"

text \<open>The process state after line 125.\<close>

definition started :: "world \<Rightarrow> proc" where
  "started w = snd (read_marker (init w))"

definition flags_conflict :: "world \<Rightarrow> bool" where
  "flags_conflict w = (logFlag \<in> set (flag_Visited w) \<and> foregroundFlag \<in> set (flag_Visited w))"

text \<open>The result of lines 161--191, and the process state after \<open>AddFunc\<close> was called.\<close>

definition logged :: "world \<Rightarrow> proc \<times> outcome" where
  "logged w = open_log w (isCronProcess w) (started w)"

definition registered :: "world \<Rightarrow> proc" where
  "registered w = emit (AddFunc (flag_Args w ! 0)) (fst (logged w))"

text \<open>Events that touch the file system, and events of scheduling and of child processes.\<close>

fun file_io :: "event \<Rightarrow> bool" where
  "file_io (EvalSymlinks x) = True"
| "file_io (OpenFile x f m) = True"
| "file_io (Close f) = True"
| "file_io (Write (LogFile x) t) = True"
| "file_io (LogPrintf (LogFile x) t) = True"
| "file_io (FlagUsage (LogFile x)) = True"
| "file_io e = False"

fun scheduling :: "event \<Rightarrow> bool" where
  "scheduling (AddFunc x) = True"
| "scheduling CronStart = True"
| "scheduling (CmdStart c e) = True"
| "scheduling (CmdRun c e) = True"
| "scheduling e = False"

text \<open>The command of lines 239--242, by which the process starts itself again.\<close>

definition self_cmd :: "world \<Rightarrow> cmd" where
  "self_cmd w = \<lparr>cmd_Path = os_Args0 w, cmd_Args = os_Args1 w,
                 cmd_Stdin = None, cmd_Stdout = None, cmd_Stderr = None\<rparr>"

text \<open>The command that a firing runs in process state \<open>s\<close>, the events of a firing up to
  its call of \<open>cmd.Run()\<close>, and the events of the return of such a call.\<close>

definition fired_cmd :: "world \<Rightarrow> proc \<Rightarrow> cmd" where
  "fired_cmd w s =
     \<lparr>cmd_Path = flag_shell w,
      cmd_Args = (if flag_shellCommandOption w \<noteq> [] then [flag_shellCommandOption w, flag_Args w ! 1]
                  else [flag_Args w ! 1]),
      cmd_Stdin = (if flag_fg w then None else Some StdinFile),
      cmd_Stdout = Some (os_Stdout s), cmd_Stderr = Some (os_Stderr s)\<rparr>"

definition call_events :: "world \<Rightarrow> proc \<Rightarrow> event list" where
  "call_events w s =
     (if flag_q w then []
      else [LogPrintf (log_Output s)
              (''Running: '' @ strings_Join (cmd_Path (fired_cmd w s) # cmd_Args (fired_cmd w s)) '' '')])
     @ [CmdRun (fired_cmd w s) (environ s)]"

definition return_events :: "world \<Rightarrow> proc \<Rightarrow> run_result \<Rightarrow> event list" where
  "return_events w s r =
     (case cmd_Run r of
        None \<Rightarrow> []
      | Some err \<Rightarrow> [Write (os_Stderr s) (''Error: '' @ error_text err @ [newline])])"

text \<open>
  The blocking phase written out: the events of the ticks, whether the process is still
  alive after them, and the number of calls of \<open>cmd.Run()\<close> under way after them. The
  lemmas \<open>firings_trace\<close>, \<open>firings_outcome\<close> and \<open>firings_append\<close> prove that \<open>firings\<close>
  does exactly this.
\<close>

fun firing_events :: "world \<Rightarrow> proc \<Rightarrow> nat \<Rightarrow> tick list \<Rightarrow> event list" where
  "firing_events w s n [] = []"
| "firing_events w s n (Fire # ts) = call_events w s @ firing_events w s (Suc n) ts"
| "firing_events w s n (Return r # ts) =
     (if n = 0 then firing_events w s n ts
      else if cmd_Run r = None then firing_events w s (n - 1) ts
      else return_events w s r)"

fun survives :: "nat \<Rightarrow> tick list \<Rightarrow> bool" where
  "survives n [] = True"
| "survives n (Fire # ts) = survives (Suc n) ts"
| "survives n (Return r # ts) =
     (if n = 0 then survives n ts else cmd_Run r = None \<and> survives (n - 1) ts)"

fun pending :: "nat \<Rightarrow> tick list \<Rightarrow> nat" where
  "pending n [] = n"
| "pending n (Fire # ts) = pending (Suc n) ts"
| "pending n (Return r # ts) = pending (n - 1) ts"

text \<open>The commands of a trace on which a firing called \<open>cmd.Run()\<close>, and those started
  without waiting, each with the environment it inherits.\<close>

fun runs :: "event list \<Rightarrow> (cmd \<times> env) list" where
  "runs [] = []"
| "runs (CmdRun c e # evs) = (c, e) # runs evs"
| "runs (ev # evs) = runs evs"

fun starts :: "event list \<Rightarrow> (cmd \<times> env) list" where
  "starts [] = []"
| "starts (CmdStart c e # evs) = (c, e) # starts evs"
| "starts (ev # evs) = starts evs"

text \<open>
  The startup of the process written out as a trace: the log file of lines 161--191, the
  usage text, the relaunch of lines 231--249, and the conditions under which the process
  reaches the blocking phase or the relaunch. The lemmas \<open>main_outcome\<close> and \<open>main_trace\<close>
  prove that \<open>main\<close> does exactly this on a command line that \<open>flag.Parse()\<close> accepts.
\<close>

definition logfile_path :: "world \<Rightarrow> string" where
  "logfile_path w = (case snd (resolve_logfile w) of Inr lf \<Rightarrow> lf | Inl err \<Rightarrow> fst (resolve_logfile w))"

definition log_opened :: "world \<Rightarrow> bool" where
  "log_opened w =
     (flag_fg w \<or>
      (case snd (resolve_logfile w) of
         Inl err \<Rightarrow> False
       | Inr lf \<Rightarrow> os_OpenFile w lf (open_flags w) = None))"

definition log_events :: "world \<Rightarrow> event list" where
  "log_events w =
     (if flag_fg w then []
      else EvalSymlinks (fst (resolve_logfile w)) #
        (case snd (resolve_logfile w) of
           Inl err \<Rightarrow> [Write StderrFile (''Error: '' @ error_text err @ [newline])]
         | Inr lf \<Rightarrow>
            OpenFile lf (open_flags w) perm_0666 #
            (case os_OpenFile w lf (open_flags w) of
               Some err \<Rightarrow> [Write StderrFile (''Error: '' @ error_text err @ [newline])]
             | None \<Rightarrow> if isCronProcess w then [] else [Close (LogFile lf)])))"

definition redirected :: "world \<Rightarrow> bool" where
  "redirected w = (\<not> flag_fg w \<and> isCronProcess w \<and> log_opened w)"

definition usage_events :: "world \<Rightarrow> event list" where
  "usage_events w =
     [Write StderrFile (''Welcome to cronolize '' @ version w @ '' (C) 2022 SA6MWA https://github.com/sa6mwa/cronolizer'' @ [newline]),
      Write StderrFile [newline],
      Write StderrFile (''Syntax: '' @ os_Args0 w @ '' [options] cronSpec command'' @ [newline]),
      Write StderrFile [newline],
      FlagUsage StderrFile,
      Write StderrFile (helpMsg @ [newline])]"

definition relaunch_events :: "world \<Rightarrow> event list" where
  "relaunch_events w =
     Setenv cronolizerEnvVar envVarValueExpected #
     (case os_Setenv w cronolizerEnvVar envVarValueExpected of
        Some err \<Rightarrow> [Write StderrFile (''Error: '' @ error_text err @ [newline])]
      | None \<Rightarrow>
         CmdStart (self_cmd w) ((os_Environ w)(cronolizerEnvVar \<mapsto> envVarValueExpected)) #
         (case cmd_Start w (self_cmd w) of
            Inl err \<Rightarrow> [Write StderrFile (''Error: '' @ error_text err @ [newline])]
          | Inr pid \<Rightarrow>
             if flag_q w then []
             else [Write StdoutFile (''Running cron job as PID '' @ show_nat pid @ [newline])]))"

definition parsed :: "world \<Rightarrow> bool" where
  "parsed w =
     (length (flag_Args w) = 2 \<and> \<not> flags_conflict w \<and> log_opened w
      \<and> cron_AddFunc w (flag_Args w ! 0) = None)"

definition blocking :: "world \<Rightarrow> bool" where
  "blocking w = (parsed w \<and> (isCronProcess w \<or> flag_fg w))"

definition relaunching :: "world \<Rightarrow> bool" where
  "relaunching w = (parsed w \<and> \<not> isCronProcess w \<and> \<not> flag_fg w)"

definition startup_events :: "world \<Rightarrow> event list" where
  "startup_events w =
     marker_events w @
     (if length (flag_Args w) \<noteq> 2 then usage_events w
      else if flags_conflict w
      then [Write StderrFile (''Syntax error: you can not combine the -log and the -fg option.'' @ [newline])]
      else log_events w @
        (if \<not> log_opened w then []
         else AddFunc (flag_Args w ! 0) #
           (case cron_AddFunc w (flag_Args w ! 0) of
              Some err \<Rightarrow>
                [Write (if redirected w then LogFile (logfile_path w) else StderrFile)
                   (''Error: '' @ error_text err @ [newline])]
            | None \<Rightarrow> if isCronProcess w \<or> flag_fg w then [CronStart] else relaunch_events w)))"

text \<open>The variables a trace looks up, and the assignments it makes to the environment.\<close>

fun lookups :: "event list \<Rightarrow> string list" where
  "lookups [] = []"
| "lookups (LookupEnv k # evs) = k # lookups evs"
| "lookups (ev # evs) = lookups evs"

fun setenvs :: "event list \<Rightarrow> (string \<times> string) list" where
  "setenvs [] = []"
| "setenvs (Setenv k v # evs) = (k, v) # setenvs evs"
| "setenvs (ev # evs) = setenvs evs"


text \<open>What a trace writes with \<open>fmt\<close>, in order: the file and the text.\<close>

fun writes :: "event list \<Rightarrow> (osfile \<times> string) list" where
  "writes [] = []"
| "writes (Write f t # evs) = (f, t) # writes evs"
| "writes (ev # evs) = writes evs"

subsection \<open>Example invocations\<close>

text \<open>
  \<open>cronolize "* * * * *" date\<close> with every flag at its default, on a system where
  every call succeeds.
\<close>

definition example_world :: world where
  "example_world =
     \<lparr>os_Args0 = ''cronolize'', os_Args1 = [''* * * * *'', ''date''],
      os_Environ = Map.empty, version = ''0'',
      flag_log = ''/dev/null'', flag_shell = ''/bin/sh'', flag_shellCommandOption = ''-c'',
      flag_truncate = False, flag_q = False, flag_fg = False,
      flag_Visited = [], flag_Args = [''* * * * *'', ''date''],
      filepath_Clean = (\<lambda>x. x), filepath_EvalSymlinks = Inr,
      os_OpenFile = (\<lambda>x y. None), cron_AddFunc = (\<lambda>x. None),
      os_Setenv = (\<lambda>k v. None), cmd_Start = (\<lambda>c. Inr 4242)\<rparr>"

text \<open>\<open>cronolize -fg -log out.log "* * * * *" date\<close>.\<close>

definition example_fg_log :: world where
  "example_fg_log =
     example_world\<lparr>os_Args1 := [''-fg'', ''-log'', ''out.log'', ''* * * * *'', ''date''],
                   flag_fg := True, flag_log := ''out.log'', flag_Visited := [''fg'', ''log'']\<rparr>"

text \<open>\<open>cronolize "61 * * * *" date\<close>: the cron library rejects the expression.\<close>

definition example_bad_spec :: world where
  "example_bad_spec =
     example_world\<lparr>os_Args1 := [''61 * * * *'', ''date''], flag_Args := [''61 * * * *'', ''date''],
                   cron_AddFunc := (\<lambda>x. Some (GoError False ''end of range (61) above maximum (59): 61''))\<rparr>"

text \<open>The relaunched copy of \<open>example_world\<close>: the same command line, the marker set.\<close>

definition example_child :: world where
  "example_child = example_world\<lparr>os_Environ := [cronolizerEnvVar \<mapsto> envVarValueExpected]\<rparr>"

text \<open>\<open>cronolize -fg "* * * * *" date\<close>.\<close>

definition example_fg :: world where
  "example_fg =
     example_world\<lparr>os_Args1 := [''-fg'', ''* * * * *'', ''date''],
                   flag_fg := True, flag_Visited := [''fg'']\<rparr>"

text \<open>The example started by hand with the marker set to another value.\<close>

definition example_stale :: world where
  "example_stale = example_world\<lparr>os_Environ := [cronolizerEnvVar \<mapsto> ''stale'']\<rparr>"

text \<open>\<open>cronolize -log out.log -truncate "* * * * *" date\<close>, and its relaunched copy.\<close>

definition example_truncate :: world where
  "example_truncate =
     example_world\<lparr>os_Args1 := [''-log'', ''out.log'', ''-truncate'', ''* * * * *'', ''date''],
                   flag_log := ''out.log'', flag_truncate := True,
                   flag_Visited := [''log'', ''truncate'']\<rparr>"


text \<open>The same command line where the log file cannot be opened.\<close>

definition example_unwritable :: world where
  "example_unwritable =
     example_truncate\<lparr>os_OpenFile := (\<lambda>x y. Some (GoError False ''open out.log: permission denied''))\<rparr>"

text \<open>\<open>cronolize\<close> without arguments, and the relaunched copy of the example with the
  rejected expression.\<close>

definition example_noargs :: world where
  "example_noargs = example_world\<lparr>os_Args1 := [], flag_Args := []\<rparr>"

definition example_bad_spec_child :: world where
  "example_bad_spec_child =
     example_bad_spec\<lparr>os_Environ := [cronolizerEnvVar \<mapsto> envVarValueExpected]\<rparr>"

text \<open>\<open>cronolize -bogus "* * * * *" date\<close>, which \<open>flag.Parse()\<close> rejects, and
  \<open>cronolize -log out.log -truncate "* * * * *" date\<close> where the path of the log file cannot be
  resolved.\<close>

definition example_bogus :: world where
  "example_bogus = example_world\<lparr>os_Args1 := [''-bogus'', ''* * * * *'', ''date'']\<rparr>"

definition example_unresolvable :: world where
  "example_unresolvable =
     example_truncate\<lparr>filepath_EvalSymlinks :=
       (\<lambda>x. Inl (GoError False ''lstat out.log: permission denied''))\<rparr>"

section \<open>The recurrence engine\<close>

text \<open>
  The program hands the recurrence expression to the cron library (\<open>cron.New\<close>,
  \<open>AddFunc\<close>, lines 193--194), whose code is not among the sources. The engine is
  therefore written from section 4.1 of the specification. Instants are seconds since
  1970-01-01 00:00:00 UTC, read in UTC; the optional zone override is left out.
\<close>

text \<open>Modelled from the spec: the parsed expression of section 3, which the cron library
  builds and which is missing from the sources: five fields, each a wildcard or a set of
  accepted values.\<close>

datatype field = Wildcard | Values "nat list"

record recurrence =
  minute :: field
  hour :: field
  day_of_month :: field
  month :: field
  day_of_week :: field

text \<open>Modelled from the spec: the invariant of section 3 on the parsed expression (the
  parser is missing): every accepted value lies in the range of its field.\<close>

fun within :: "nat \<Rightarrow> nat \<Rightarrow> field \<Rightarrow> bool" where
  "within lo hi Wildcard = True"
| "within lo hi (Values vs) = list_all (\<lambda>v. lo \<le> v \<and> v \<le> hi) vs"

definition valid_spec :: "recurrence \<Rightarrow> bool" where
  "valid_spec sp =
     (within 0 59 (minute sp) \<and> within 0 23 (hour sp) \<and> within 1 31 (day_of_month sp)
      \<and> within 1 12 (month sp) \<and> within 0 6 (day_of_week sp))"

text \<open>Modelled from the spec: the test of one field against a value (the library's
  matching code is missing): a wildcard accepts all, a set its members.\<close>

fun accepts :: "field \<Rightarrow> nat \<Rightarrow> bool" where
  "accepts Wildcard v = True"
| "accepts (Values vs) v = (v \<in> set vs)"

text \<open>Modelled from the spec: the wall-clock fields of an instant, which the spec takes
  for granted and the missing library computes: the Gregorian calendar, counted forward
  day by day from Thursday 1970-01-01; Sunday is day 0 of the week.\<close>

definition leap_year :: "nat \<Rightarrow> bool" where
  "leap_year y = (y mod 4 = 0 \<and> (y mod 100 \<noteq> 0 \<or> y mod 400 = 0))"

definition days_in_month :: "nat \<Rightarrow> nat \<Rightarrow> nat" where
  "days_in_month y m =
     (if m = 2 then (if leap_year y then 29 else 28)
      else if m = 4 \<or> m = 6 \<or> m = 9 \<or> m = 11 then 30 else 31)"

fun next_day :: "nat \<times> nat \<times> nat \<Rightarrow> nat \<times> nat \<times> nat" where
  "next_day (y, m, d) =
     (if d < days_in_month y m then (y, m, d + 1)
      else if m < 12 then (y, m + 1, 1)
      else (y + 1, 1, 1))"

definition civil :: "nat \<Rightarrow> nat \<times> nat \<times> nat" where
  "civil n = (next_day ^^ n) (1970, 1, 1)"

definition minute_of :: "nat \<Rightarrow> nat" where
  "minute_of t = (t div 60) mod 60"

definition hour_of :: "nat \<Rightarrow> nat" where
  "hour_of t = (t div 3600) mod 24"

definition day_of_month_of :: "nat \<Rightarrow> nat" where
  "day_of_month_of t = snd (snd (civil (t div 86400)))"

definition month_of :: "nat \<Rightarrow> nat" where
  "month_of t = fst (snd (civil (t div 86400)))"

definition day_of_week_of :: "nat \<Rightarrow> nat" where
  "day_of_week_of t = (4 + t div 86400) mod 7"

text \<open>Modelled from the spec: the match of an instant (the library's code is missing):
  minute, hour and month must pass; day-of-month and day-of-week are OR-ed when both are
  restricted, and must both pass otherwise.\<close>

definition day_matches :: "recurrence \<Rightarrow> nat \<Rightarrow> bool" where
  "day_matches sp t =
     (if day_of_month sp \<noteq> Wildcard \<and> day_of_week sp \<noteq> Wildcard
      then accepts (day_of_month sp) (day_of_month_of t) \<or> accepts (day_of_week sp) (day_of_week_of t)
      else accepts (day_of_month sp) (day_of_month_of t) \<and> accepts (day_of_week sp) (day_of_week_of t))"

definition matches :: "recurrence \<Rightarrow> nat \<Rightarrow> bool" where
  "matches sp t =
     (accepts (minute sp) (minute_of t) \<and> accepts (hour sp) (hour_of t)
      \<and> accepts (month sp) (month_of t) \<and> day_matches sp t)"

text \<open>Modelled from the spec: \<open>next\<close> of section 4.1 (the library's \<open>Next\<close> is missing):
  from the reference instant truncated to the minute plus one minute, scan forward minute
  by minute and return the first instant that matches; give up with an internal error
  after the minutes of about four years. The function is called \<open>next_instant\<close> here.\<close>

definition search_horizon :: nat where
  "search_horizon = 4 * 366 * 24 * 60"

datatype engine_error = SearchExhausted

fun scan :: "recurrence \<Rightarrow> nat \<Rightarrow> nat \<Rightarrow> nat option" where
  "scan sp 0 c = None"
| "scan sp (Suc n) c = (if matches sp c then Some c else scan sp n (c + 60))"

definition first_candidate :: "nat \<Rightarrow> nat" where
  "first_candidate after = (after div 60) * 60 + 60"

definition next_instant :: "recurrence \<Rightarrow> nat \<Rightarrow> engine_error + nat" where
  "next_instant sp after =
     (case scan sp search_horizon (first_candidate after) of
        None \<Rightarrow> Inl SearchExhausted
      | Some t \<Rightarrow> Inr t)"

text \<open>Three expressions: \<open>* * * * *\<close>, \<open>* * 2 * 4\<close> and \<open>0 0 31 2 *\<close>.\<close>

definition every_minute :: recurrence where
  "every_minute = \<lparr>minute = Wildcard, hour = Wildcard, day_of_month = Wildcard,
                    month = Wildcard, day_of_week = Wildcard\<rparr>"

definition second_or_thursday :: recurrence where
  "second_or_thursday = \<lparr>minute = Wildcard, hour = Wildcard, day_of_month = Values [2],
                    month = Wildcard, day_of_week = Values [4]\<rparr>"

definition february_31 :: recurrence where
  "february_31 = \<lparr>minute = Values [0], hour = Values [0], day_of_month = Values [31],
                    month = Values [2], day_of_week = Wildcard\<rparr>"

section \<open>Properties\<close>

subsection \<open>Basic facts\<close>

lemma trace_emit [simp]: "trace (emit e s) = trace s @ [e]"
  and environ_emit [simp]: "environ (emit e s) = environ s"
  and os_Stdout_emit [simp]: "os_Stdout (emit e s) = os_Stdout s"
  and os_Stderr_emit [simp]: "os_Stderr (emit e s) = os_Stderr s"
  and log_Output_emit [simp]: "log_Output (emit e s) = log_Output s"
  by (simp_all add: emit_def)

text \<open>The definitions that evaluate a run on a concrete input.\<close>

lemmas run_defs =
  cronolize_def process_def main_def flag_Parse_def onFire_call_def onFire_return_def read_marker_def init_def usage_def open_log_def resolve_logfile_def
  open_flags_def perm_0666_def relaunch_def onFire_def cmd_Run_def exec_Command_def emit_def
  fatal_def fatalf_def pe_def p_out_def Fprintln_def cronolizerEnvVar_def envVarValueExpected_def
  logFlag_def foregroundFlag_def isCronProcess_def Let_def

lemmas vocabulary_defs =
  marker_events_def started_def flags_conflict_def logged_def registered_def self_cmd_def
  fired_cmd_def call_events_def return_events_def logfile_path_def log_opened_def log_events_def redirected_def
  usage_events_def relaunch_events_def parsed_def blocking_def relaunching_def startup_events_def

lemma strings_Join_two [simp]: "strings_Join [a, b] sep = a @ sep @ b"
  by simp

lemma fatal_simps [simp]:
  "snd (fatal a s) = Exited 1"
  "trace (fst (fatal a s)) = trace s @ [Write (os_Stderr s) (strings_Join (''Error:'' # a) '' '' @ [newline])]"
  "environ (fst (fatal a s)) = environ s"
  by (simp_all add: fatal_def Fprintln_def)

lemma fatal_streams [simp]:
  "os_Stdout (fst (fatal a s)) = os_Stdout s"
  "os_Stderr (fst (fatal a s)) = os_Stderr s"
  "log_Output (fst (fatal a s)) = log_Output s"
  by (simp_all add: fatal_def Fprintln_def)

lemma fatalf_simps [simp]:
  "snd (fatalf t n s) = Exited 1"
  "environ (fst (fatalf t n s)) = environ s"
  "0 < n \<Longrightarrow> trace (fst (fatalf t n s)) = trace s @ [Write (os_Stderr s) (t @ [newline])]"
  by (simp_all add: fatalf_def Fprintln_def)

lemma usage_simps [simp]:
  "snd (usage w s) = Exited 1"
  "environ (fst (usage w s)) = environ s"
  "trace (fst (usage w s)) = trace s @
     [Write (os_Stderr s) (''Welcome to cronolize '' @ version w @ '' (C) 2022 SA6MWA https://github.com/sa6mwa/cronolizer'' @ [newline]),
      Write (os_Stderr s) [newline],
      Write (os_Stderr s) (''Syntax: '' @ os_Args0 w @ '' [options] cronSpec command'' @ [newline]),
      Write (os_Stderr s) [newline],
      FlagUsage (os_Stderr s),
      Write (os_Stderr s) (helpMsg @ [newline])]"
  by (simp_all add: usage_def pe_def Fprintln_def Let_def)

lemma read_marker_init:
  "fst (read_marker (init w)) = isCronProcess w"
  "trace (snd (read_marker (init w))) = marker_events w"
  "environ (snd (read_marker (init w))) = (os_Environ w)(cronolizerEnvVar := None)"
  "os_Stdout (snd (read_marker (init w))) = StdoutFile"
  "os_Stderr (snd (read_marker (init w))) = StderrFile"
  "log_Output (snd (read_marker (init w))) = StderrFile"
  by (auto simp: read_marker_def init_def marker_events_def isCronProcess_def Let_def)

lemma started_simps [simp]:
  "trace (started w) = marker_events w"
  "environ (started w) = (os_Environ w)(cronolizerEnvVar := None)"
  "os_Stdout (started w) = StdoutFile"
  "os_Stderr (started w) = StderrFile"
  "log_Output (started w) = StderrFile"
  by (simp_all add: started_def read_marker_init)

subsection \<open>The ways through lines 161--191\<close>

lemma open_log_fg: "flag_fg w \<Longrightarrow> open_log w b s = (s, Returned)"
  by (simp add: open_log_def)

lemma open_log_resolve_error:
  "\<not> flag_fg w \<Longrightarrow> snd (resolve_logfile w) = Inl err \<Longrightarrow>
   open_log w b s = fatal [error_text err] (emit (EvalSymlinks (fst (resolve_logfile w))) s)"
  by (cases "resolve_logfile w") (simp add: open_log_def)

lemma open_log_open_error:
  "\<not> flag_fg w \<Longrightarrow> snd (resolve_logfile w) = Inr lf \<Longrightarrow>
   os_OpenFile w lf (open_flags w) = Some err \<Longrightarrow>
   open_log w b s = fatal [error_text err]
     (emit (OpenFile lf (open_flags w) perm_0666) (emit (EvalSymlinks (fst (resolve_logfile w))) s))"
  by (cases "resolve_logfile w") (simp add: open_log_def Let_def)

lemma open_log_child:
  "\<not> flag_fg w \<Longrightarrow> snd (resolve_logfile w) = Inr lf \<Longrightarrow>
   os_OpenFile w lf (open_flags w) = None \<Longrightarrow>
   open_log w True s =
     ((emit (OpenFile lf (open_flags w) perm_0666) (emit (EvalSymlinks (fst (resolve_logfile w))) s))
        \<lparr>os_Stdout := LogFile lf, os_Stderr := LogFile lf, log_Output := LogFile lf\<rparr>, Returned)"
  by (cases "resolve_logfile w") (simp add: open_log_def Let_def)

lemma open_log_parent:
  "\<not> flag_fg w \<Longrightarrow> snd (resolve_logfile w) = Inr lf \<Longrightarrow>
   os_OpenFile w lf (open_flags w) = None \<Longrightarrow>
   open_log w False s =
     (emit (Close (LogFile lf))
        (emit (OpenFile lf (open_flags w) perm_0666) (emit (EvalSymlinks (fst (resolve_logfile w))) s)),
      Returned)"
  by (cases "resolve_logfile w") (simp add: open_log_def Let_def)

lemmas open_log_paths =
  open_log_fg open_log_resolve_error open_log_open_error open_log_child open_log_parent

lemma open_log_cases [case_names fg resolve_error open_error child parent]:
  assumes "flag_fg w \<Longrightarrow> P"
    and "\<And>err. \<not> flag_fg w \<Longrightarrow> snd (resolve_logfile w) = Inl err \<Longrightarrow> P"
    and "\<And>lf err. \<not> flag_fg w \<Longrightarrow> snd (resolve_logfile w) = Inr lf \<Longrightarrow>
           os_OpenFile w lf (open_flags w) = Some err \<Longrightarrow> P"
    and "\<And>lf. \<not> flag_fg w \<Longrightarrow> snd (resolve_logfile w) = Inr lf \<Longrightarrow>
           os_OpenFile w lf (open_flags w) = None \<Longrightarrow> b \<Longrightarrow> P"
    and "\<And>lf. \<not> flag_fg w \<Longrightarrow> snd (resolve_logfile w) = Inr lf \<Longrightarrow>
           os_OpenFile w lf (open_flags w) = None \<Longrightarrow> \<not> b \<Longrightarrow> P"
  shows P
proof (cases "flag_fg w")
  case True
  then show ?thesis by (rule assms(1))
next
  case nfg: False
  show ?thesis
  proof (cases "snd (resolve_logfile w)")
    case (Inl err)
    with nfg show ?thesis by (rule assms(2))
  next
    case (Inr lf)
    show ?thesis
    proof (cases "os_OpenFile w lf (open_flags w)")
      case None
      with nfg Inr show ?thesis using assms(4,5) by (cases b) auto
    next
      case (Some err)
      with nfg Inr show ?thesis using assms(3) by auto
    qed
  qed
qed

lemma open_log_outcome:
  "snd (open_log w b s) = Returned \<or> snd (open_log w b s) = Exited 1"
  by (rule open_log_cases [of w _ b]) (simp_all add: open_log_paths)

lemma open_log_environ:
  "environ (fst (open_log w b s)) = environ s"
  by (rule open_log_cases [of w _ b]) (simp_all add: open_log_paths)

lemma open_log_trace:
  "\<exists>evs. trace (fst (open_log w b s)) = trace s @ evs \<and> (\<forall>e \<in> set evs. \<not> scheduling e)"
  by (rule open_log_cases [of w _ b]) (simp_all add: open_log_paths)

subsection \<open>The ways through \<open>main\<close>\<close>

lemma main_unfold:
  "main Parsed w =
     (if length (flag_Args w) \<noteq> 2 then usage w (started w)
      else if flags_conflict w
      then fatalf (''Syntax error: you can not combine the -'' @ logFlag @ '' and the -''
                             @ foregroundFlag @ '' option.'') 2 (started w)
      else (case logged w of
                  (s2, Exited n) \<Rightarrow> (s2, Exited n)
                | (s2, _) \<Rightarrow>
                   (let s3 = emit (AddFunc (flag_Args w ! 0)) s2
                    in case cron_AddFunc w (flag_Args w ! 0) of
                         Some err \<Rightarrow> fatal [error_text err] s3
                       | None \<Rightarrow>
                          if isCronProcess w \<or> flag_fg w
                          then (emit CronStart s3, Blocked)
                          else relaunch w s3)))"
  using read_marker_init(1)[of w]
  by (cases "read_marker (init w)")
     (simp add: main_def flag_Parse_def started_def logged_def flags_conflict_def Let_def)

lemma main_usage:
  "length (flag_Args w) \<noteq> 2 \<Longrightarrow> main Parsed w = usage w (started w)"
  by (simp add: main_unfold)

lemma main_conflict:
  "length (flag_Args w) = 2 \<Longrightarrow> flags_conflict w \<Longrightarrow>
   main Parsed w = fatalf (''Syntax error: you can not combine the -'' @ logFlag @ '' and the -''
                      @ foregroundFlag @ '' option.'') 2 (started w)"
  by (simp add: main_unfold)

lemma main_log_failed:
  "length (flag_Args w) = 2 \<Longrightarrow> \<not> flags_conflict w \<Longrightarrow> snd (logged w) = Exited n \<Longrightarrow>
   main Parsed w = (fst (logged w), Exited n)"
  by (cases "logged w") (simp add: main_unfold)

lemma main_parse_error:
  "length (flag_Args w) = 2 \<Longrightarrow> \<not> flags_conflict w \<Longrightarrow> snd (logged w) = Returned \<Longrightarrow>
   cron_AddFunc w (flag_Args w ! 0) = Some err \<Longrightarrow>
   main Parsed w = fatal [error_text err] (registered w)"
  by (cases "logged w") (simp add: main_unfold registered_def)

lemma main_blocked:
  "length (flag_Args w) = 2 \<Longrightarrow> \<not> flags_conflict w \<Longrightarrow> snd (logged w) = Returned \<Longrightarrow>
   cron_AddFunc w (flag_Args w ! 0) = None \<Longrightarrow> isCronProcess w \<or> flag_fg w \<Longrightarrow>
   main Parsed w = (emit CronStart (registered w), Blocked)"
  by (cases "logged w") (auto simp add: main_unfold registered_def)

lemma main_relaunch:
  "length (flag_Args w) = 2 \<Longrightarrow> \<not> flags_conflict w \<Longrightarrow> snd (logged w) = Returned \<Longrightarrow>
   cron_AddFunc w (flag_Args w ! 0) = None \<Longrightarrow> \<not> isCronProcess w \<Longrightarrow> \<not> flag_fg w \<Longrightarrow>
   main Parsed w = relaunch w (registered w)"
  by (cases "logged w") (simp add: main_unfold registered_def)

lemma main_cases [case_names usage conflict log_failed parse_error blocked relaunch]:
  assumes "length (flag_Args w) \<noteq> 2 \<Longrightarrow> P"
    and "length (flag_Args w) = 2 \<Longrightarrow> flags_conflict w \<Longrightarrow> P"
    and "length (flag_Args w) = 2 \<Longrightarrow> \<not> flags_conflict w \<Longrightarrow> snd (logged w) = Exited 1 \<Longrightarrow> P"
    and "\<And>err. length (flag_Args w) = 2 \<Longrightarrow> \<not> flags_conflict w \<Longrightarrow> snd (logged w) = Returned \<Longrightarrow>
           cron_AddFunc w (flag_Args w ! 0) = Some err \<Longrightarrow> P"
    and "length (flag_Args w) = 2 \<Longrightarrow> \<not> flags_conflict w \<Longrightarrow> snd (logged w) = Returned \<Longrightarrow>
           cron_AddFunc w (flag_Args w ! 0) = None \<Longrightarrow> isCronProcess w \<or> flag_fg w \<Longrightarrow> P"
    and "length (flag_Args w) = 2 \<Longrightarrow> \<not> flags_conflict w \<Longrightarrow> snd (logged w) = Returned \<Longrightarrow>
           cron_AddFunc w (flag_Args w ! 0) = None \<Longrightarrow> \<not> isCronProcess w \<Longrightarrow> \<not> flag_fg w \<Longrightarrow> P"
  shows P
proof -
  have "snd (logged w) = Returned \<or> snd (logged w) = Exited 1"
    unfolding logged_def by (rule open_log_outcome)
  then show ?thesis
    using assms by (cases "cron_AddFunc w (flag_Args w ! 0)") blast+
qed

lemma logged_environ [simp]:
  "environ (fst (logged w)) = (os_Environ w)(cronolizerEnvVar := None)"
  by (simp add: logged_def open_log_environ)

lemma logged_trace:
  "\<exists>evs. trace (fst (logged w)) = marker_events w @ evs \<and> (\<forall>e \<in> set evs. \<not> scheduling e)"
  using open_log_trace [of w "isCronProcess w" "started w"] by (simp add: logged_def)

lemma marker_events_no_scheduling [simp]: "e \<in> set (marker_events w) \<Longrightarrow> \<not> scheduling e"
  by (auto simp: marker_events_def split: if_splits)

lemma logged_no_scheduling: "e \<in> set (trace (fst (logged w))) \<Longrightarrow> \<not> scheduling e"
  using logged_trace [of w] by auto

lemma logged_free [simp]:
  "CmdStart c e \<notin> set (trace (fst (logged w)))"
  "CmdRun c e \<notin> set (trace (fst (logged w)))"
  "CronStart \<notin> set (trace (fst (logged w)))"
  "AddFunc x \<notin> set (trace (fst (logged w)))"
  using logged_no_scheduling [of _ w] by fastforce+

lemma process_not_blocked: "snd (main pr w) \<noteq> Blocked \<Longrightarrow> process pr w ts = main pr w"
  by (cases "main pr w") (auto simp: process_def split: outcome.splits)

lemma process_blocked: "main pr w = (s, Blocked) \<Longrightarrow> process pr w ts = firings w ts 0 s"
  by (simp add: process_def)

lemma cronolize_not_blocked: "snd (main Parsed w) \<noteq> Blocked \<Longrightarrow> cronolize w rs = main Parsed w"
  by (simp add: cronolize_def process_not_blocked)

lemma cronolize_blocked: "main Parsed w = (s, Blocked) \<Longrightarrow> cronolize w rs = firings w rs 0 s"
  by (simp add: cronolize_def process_blocked)

subsection \<open>Relaunch and firings\<close>

lemma relaunch_outcome:
  "snd (relaunch w s) =
     (case os_Setenv w cronolizerEnvVar envVarValueExpected of
        Some err \<Rightarrow> Exited 1
      | None \<Rightarrow> (case cmd_Start w (self_cmd w) of Inl err \<Rightarrow> Exited 1 | Inr pid \<Rightarrow> Exited 0))"
  by (auto simp: relaunch_def self_cmd_def exec_Command_def Let_def split: option.splits sum.splits)

lemma relaunch_trace:
  "trace (fst (relaunch w s)) = trace s @
     Setenv cronolizerEnvVar envVarValueExpected #
     (case os_Setenv w cronolizerEnvVar envVarValueExpected of
        Some err \<Rightarrow> [Write (os_Stderr s) (''Error: '' @ error_text err @ [newline])]
      | None \<Rightarrow>
         CmdStart (self_cmd w) ((environ s)(cronolizerEnvVar \<mapsto> envVarValueExpected)) #
         (case cmd_Start w (self_cmd w) of
            Inl err \<Rightarrow> [Write (os_Stderr s) (''Error: '' @ error_text err @ [newline])]
          | Inr pid \<Rightarrow>
             if flag_q w then []
             else [Write (os_Stdout s) (''Running cron job as PID '' @ show_nat pid @ [newline])]))"
  by (auto simp: relaunch_def self_cmd_def exec_Command_def p_out_def Fprintln_def Let_def
      split: option.splits sum.splits)

lemma onFire_split: "onFire w r s = onFire_return w r (onFire_call w s)"
  by (cases "cmd_Run r")
     (simp_all add: onFire_def onFire_call_def onFire_return_def Let_def split: prod.splits)

lemma onFire_call_state [simp]:
  "environ (onFire_call w s) = environ s"
  "os_Stdout (onFire_call w s) = os_Stdout s"
  "os_Stderr (onFire_call w s) = os_Stderr s"
  "log_Output (onFire_call w s) = log_Output s"
  by (auto simp: onFire_call_def Let_def split: prod.splits)

lemma onFire_call_trace: "trace (onFire_call w s) = trace s @ call_events w s"
  by (auto simp: onFire_call_def call_events_def fired_cmd_def exec_Command_def Let_def
      split: prod.splits)

lemma onFire_return_outcome:
  "snd (onFire_return w r s) = (if cmd_Run r = None then Returned else Exited 1)"
  by (auto simp: onFire_return_def split: option.splits)

lemma onFire_return_state [simp]:
  "environ (fst (onFire_return w r s)) = environ s"
  "os_Stdout (fst (onFire_return w r s)) = os_Stdout s"
  "os_Stderr (fst (onFire_return w r s)) = os_Stderr s"
  "log_Output (fst (onFire_return w r s)) = log_Output s"
  by (auto simp: onFire_return_def split: option.splits)

lemma onFire_return_trace:
  "trace (fst (onFire_return w r s)) = trace s @ return_events w s r"
  by (auto simp: onFire_return_def return_events_def split: option.splits)

lemma onFire_return_ok: "cmd_Run r = None \<Longrightarrow> onFire_return w r s = (s, Returned)"
  by (simp add: onFire_return_def)

lemma events_cong:
  assumes "environ s' = environ s" "os_Stdout s' = os_Stdout s" "os_Stderr s' = os_Stderr s"
    "log_Output s' = log_Output s"
  shows "call_events w s' = call_events w s" "return_events w s' = return_events w s"
    "firing_events w s' = firing_events w s"
proof -
  show c: "call_events w s' = call_events w s"
    using assms by (simp add: call_events_def fired_cmd_def)
  show r: "return_events w s' = return_events w s"
    using assms by (intro ext) (simp add: return_events_def split: option.splits)
  have "firing_events w s' n ts = firing_events w s n ts" for n ts
  proof (induction ts arbitrary: n)
    case Nil
    show ?case by simp
  next
    case (Cons t ts)
    show ?case by (cases t) (simp_all add: c r Cons.IH)
  qed
  then show "firing_events w s' = firing_events w s" by (intro ext)
qed

lemma firing_events_call [simp]: "firing_events w (onFire_call w s) = firing_events w s"
  by (rule events_cong) simp_all

text \<open>A return that fails ends the run; a return that succeeds leaves the state as it is.\<close>

lemma firings_Return_failed:
  "0 < n \<Longrightarrow> cmd_Run r = Some err \<Longrightarrow>
   firings w (Return r # ts) n s = fatal [error_text err] s"
  by (simp add: onFire_return_def fatal_def)

lemma firings_Return_ok:
  "0 < n \<Longrightarrow> cmd_Run r = None \<Longrightarrow> firings w (Return r # ts) n s = firings w ts (n - 1) s"
  by (simp add: onFire_return_def)

lemma firings_Return_none: "firings w (Return r # ts) 0 s = firings w ts 0 s"
  by simp

lemma firings_Fire: "firings w (Fire # ts) n s = firings w ts (Suc n) (onFire_call w s)"
  by simp

lemma firings_outcome:
  "snd (firings w ts n s) = (if survives n ts then Blocked else Exited 1)"
proof (induction ts arbitrary: n s)
  case Nil
  show ?case by simp
next
  case (Cons t ts)
  show ?case
  proof (cases t)
    case Fire
    then show ?thesis by (simp add: Cons.IH)
  next
    case (Return r)
    show ?thesis
    proof (cases "n = 0")
      case True
      then show ?thesis by (simp add: Return Cons.IH)
    next
      case False
      then have n: "0 < n" by simp
      show ?thesis
      proof (cases "cmd_Run r")
        case None
        with n show ?thesis by (simp add: Return onFire_return_def Cons.IH)
      next
        case (Some err)
        with n show ?thesis by (simp add: Return onFire_return_def fatal_def)
      qed
    qed
  qed
qed

lemma firings_state_all:
  "environ (fst (firings w ts n s)) = environ s \<and> os_Stdout (fst (firings w ts n s)) = os_Stdout s
   \<and> os_Stderr (fst (firings w ts n s)) = os_Stderr s
   \<and> log_Output (fst (firings w ts n s)) = log_Output s"
proof (induction ts arbitrary: n s)
  case Nil
  show ?case by simp
next
  case (Cons t ts)
  show ?case
  proof (cases t)
    case Fire
    then show ?thesis by (simp add: Cons.IH)
  next
    case (Return r)
    show ?thesis
    proof (cases "n = 0")
      case True
      then show ?thesis by (simp add: Return Cons.IH)
    next
      case False
      then have n: "0 < n" by simp
      show ?thesis
      proof (cases "cmd_Run r")
        case None
        with n show ?thesis by (simp add: Return onFire_return_def Cons.IH)
      next
        case (Some err)
        with n show ?thesis by (simp add: Return onFire_return_def fatal_def Fprintln_def)
      qed
    qed
  qed
qed

lemmas firings_state [simp] =
  firings_state_all [THEN conjunct1]
  firings_state_all [THEN conjunct2, THEN conjunct1]
  firings_state_all [THEN conjunct2, THEN conjunct2, THEN conjunct1]
  firings_state_all [THEN conjunct2, THEN conjunct2, THEN conjunct2]

lemma firings_trace:
  "trace (fst (firings w ts n s)) = trace s @ firing_events w s n ts"
proof (induction ts arbitrary: n s)
  case Nil
  show ?case by simp
next
  case (Cons t ts)
  show ?case
  proof (cases t)
    case Fire
    then show ?thesis by (simp add: Cons.IH onFire_call_trace)
  next
    case (Return r)
    show ?thesis
    proof (cases "n = 0")
      case True
      then show ?thesis by (simp add: Return Cons.IH)
    next
      case False
      then have n: "0 < n" by simp
      show ?thesis
      proof (cases "cmd_Run r")
        case None
        with n show ?thesis by (simp add: Return onFire_return_def Cons.IH)
      next
        case (Some err)
        with n show ?thesis
          by (simp add: Return onFire_return_def return_events_def fatal_def Fprintln_def)
      qed
    qed
  qed
qed

lemma firings_append:
  "snd (firings w pre n s) = Blocked \<Longrightarrow>
   firings w (pre @ ts) n s = firings w ts (pending n pre) (fst (firings w pre n s))"
proof (induction pre arbitrary: n s)
  case Nil
  show ?case by simp
next
  case (Cons t pre)
  show ?case
  proof (cases t)
    case Fire
    with Cons.prems have "snd (firings w pre (Suc n) (onFire_call w s)) = Blocked" by simp
    from Cons.IH [OF this] Fire show ?thesis by simp
  next
    case (Return r)
    show ?thesis
    proof (cases "n = 0")
      case True
      with Cons.prems Return have "snd (firings w pre 0 s) = Blocked" by simp
      from Cons.IH [OF this] Return True show ?thesis by simp
    next
      case False
      then have n: "0 < n" by simp
      show ?thesis
      proof (cases "cmd_Run r")
        case None
        with Cons.prems Return n have "snd (firings w pre (n - 1) s) = Blocked"
          by (simp add: onFire_return_def)
        from Cons.IH [OF this] Return n None show ?thesis
          by (simp add: onFire_return_def)
      next
        case (Some err)
        with Cons.prems Return n show ?thesis
          by (simp add: onFire_return_def fatal_def)
      qed
    qed
  qed
qed

subsection \<open>The startup as a trace\<close>

lemma logged_outcome: "snd (logged w) = (if log_opened w then Returned else Exited 1)"
  unfolding logged_def
  by (rule open_log_cases [of w _ "isCronProcess w"]) (simp_all add: open_log_paths log_opened_def)

lemma logged_trace_eq: "trace (fst (logged w)) = marker_events w @ log_events w"
  unfolding logged_def
  by (rule open_log_cases [of w _ "isCronProcess w"]) (simp_all add: open_log_paths log_events_def)

lemma logged_Stdout:
  "os_Stdout (fst (logged w)) = (if redirected w then LogFile (logfile_path w) else StdoutFile)"
  unfolding logged_def
  by (rule open_log_cases [of w _ "isCronProcess w"])
     (simp_all add: open_log_paths redirected_def log_opened_def logfile_path_def)

lemma logged_Stderr:
  "os_Stderr (fst (logged w)) = (if redirected w then LogFile (logfile_path w) else StderrFile)"
  unfolding logged_def
  by (rule open_log_cases [of w _ "isCronProcess w"])
     (simp_all add: open_log_paths redirected_def log_opened_def logfile_path_def)

lemma logged_log_Output:
  "log_Output (fst (logged w)) = (if redirected w then LogFile (logfile_path w) else StderrFile)"
  unfolding logged_def
  by (rule open_log_cases [of w _ "isCronProcess w"])
     (simp_all add: open_log_paths redirected_def log_opened_def logfile_path_def)

lemmas logged_streams = logged_Stdout logged_Stderr logged_log_Output

lemma registered_simps [simp]:
  "trace (registered w) = marker_events w @ log_events w @ [AddFunc (flag_Args w ! 0)]"
  "environ (registered w) = (os_Environ w)(cronolizerEnvVar := None)"
  "os_Stdout (registered w) = (if redirected w then LogFile (logfile_path w) else StdoutFile)"
  "os_Stderr (registered w) = (if redirected w then LogFile (logfile_path w) else StderrFile)"
  "log_Output (registered w) = (if redirected w then LogFile (logfile_path w) else StderrFile)"
  by (simp_all add: registered_def logged_trace_eq logged_streams)

lemma main_outcome:
  "snd (main Parsed w) =
     (if blocking w then Blocked
      else if relaunching w \<and> os_Setenv w cronolizerEnvVar envVarValueExpected = None
              \<and> (\<exists>pid. cmd_Start w (self_cmd w) = Inr pid)
      then Exited 0 else Exited 1)"
  by (rule main_cases [of w])
     (auto simp: main_usage main_conflict main_log_failed main_parse_error main_blocked main_relaunch
        blocking_def relaunching_def parsed_def logged_outcome relaunch_outcome
        split: if_splits option.splits sum.splits)

lemma main_trace: "trace (fst (main Parsed w)) = startup_events w"
  by (rule main_cases [of w])
     (auto simp: main_usage main_conflict main_log_failed main_parse_error main_blocked main_relaunch
        startup_events_def usage_events_def relaunch_events_def logged_outcome logged_trace_eq
        relaunch_trace redirected_def logFlag_def foregroundFlag_def
        split: if_splits option.splits sum.splits)

subsection \<open>The whole run as a trace\<close>

lemma blocking_iff: "snd (main Parsed w) = Blocked \<longleftrightarrow> blocking w"
  by (simp add: main_outcome)

lemma main_blocking: "blocking w \<Longrightarrow> main Parsed w = (emit CronStart (registered w), Blocked)"
  by (rule main_blocked) (simp_all add: blocking_def parsed_def logged_outcome)

lemma firing_events_CronStart [simp]: "firing_events w (emit CronStart s) = firing_events w s"
  by (rule events_cong) simp_all

lemma cronolize_outcome:
  "snd (cronolize w rs) =
     (if blocking w then (if survives 0 rs then Blocked else Exited 1)
      else snd (main Parsed w))"
proof (cases "blocking w")
  case True
  then show ?thesis
    by (simp add: cronolize_blocked [OF main_blocking] firings_outcome)
next
  case False
  then have "cronolize w rs = main Parsed w"
    by (intro cronolize_not_blocked) (simp add: blocking_iff)
  with False show ?thesis by simp
qed

lemma cronolize_trace:
  "trace (fst (cronolize w rs)) =
     startup_events w @ (if blocking w then firing_events w (registered w) 0 rs else [])"
proof (cases "blocking w")
  case True
  have "trace (emit CronStart (registered w)) = startup_events w"
    using main_trace [of w] by (simp add: main_blocking [OF True] del: trace_emit)
  with True show ?thesis
    by (simp add: cronolize_blocked [OF main_blocking] firings_trace del: trace_emit)
next
  case False
  then have "cronolize w rs = main Parsed w"
    by (intro cronolize_not_blocked) (simp add: blocking_iff)
  with False show ?thesis by (simp add: main_trace)
qed

lemma runs_append [simp]: "runs (xs @ ys) = runs xs @ runs ys"
  by (induction xs rule: runs.induct) simp_all

lemma starts_append [simp]: "starts (xs @ ys) = starts xs @ starts ys"
  by (induction xs rule: starts.induct) simp_all

lemma runs_call_events [simp]: "runs (call_events w s) = [(fired_cmd w s, environ s)]"
  by (simp add: call_events_def)

lemma starts_call_events [simp]: "starts (call_events w s) = []"
  by (simp add: call_events_def)

lemma runs_return_events [simp]: "runs (return_events w s r) = []"
  by (simp add: return_events_def split: option.splits)

lemma starts_return_events [simp]: "starts (return_events w s r) = []"
  by (simp add: return_events_def split: option.splits)

lemma runs_firings: "set (runs (firing_events w s n ts)) \<subseteq> {(fired_cmd w s, environ s)}"
  by (induction w s n ts rule: firing_events.induct) auto

lemma starts_firings [simp]: "starts (firing_events w s n ts) = []"
  by (induction w s n ts rule: firing_events.induct) simp_all

lemma runs_startup [simp]: "runs (startup_events w) = []"
  by (simp add: startup_events_def marker_events_def usage_events_def log_events_def
      relaunch_events_def split: option.splits sum.splits)

lemma starts_startup:
  "starts (startup_events w) =
     (if relaunching w \<and> os_Setenv w cronolizerEnvVar envVarValueExpected = None
      then [(self_cmd w, (os_Environ w)(cronolizerEnvVar \<mapsto> envVarValueExpected))] else [])"
  by (auto simp add: startup_events_def marker_events_def usage_events_def log_events_def
      relaunch_events_def relaunching_def parsed_def log_opened_def split: option.splits sum.splits)

subsection \<open>The foreground flag together with the log flag\<close>

text \<open>
  Claim C7. When the command line set both \<open>-fg\<close> and \<open>-log\<close>, the process ends with
  status 1, has written to standard error, and its whole trace holds no event on the
  file system and no event of scheduling; with two positional arguments the trace is the
  lookup of the marker followed by the one line of the syntax error.
\<close>

theorem fg_and_log_rejected:
  assumes "logFlag \<in> set (flag_Visited w)" and "foregroundFlag \<in> set (flag_Visited w)"
  shows "snd (cronolize w rs) = Exited 1
       \<and> (\<exists>text. Write StderrFile text \<in> set (trace (fst (cronolize w rs))))
       \<and> (\<forall>e \<in> set (trace (fst (cronolize w rs))). \<not> file_io e \<and> \<not> scheduling e)
       \<and> (length (flag_Args w) = 2 \<longrightarrow>
            trace (fst (cronolize w rs)) = marker_events w @
              [Write StderrFile (''Syntax error: you can not combine the -log and the -fg option.'' @ [newline])])"
proof -
  from assms have c: "flags_conflict w" by (simp add: flags_conflict_def)
  have "(length (flag_Args w) \<noteq> 2 \<and> main Parsed w = usage w (started w)) \<or>
        (length (flag_Args w) = 2 \<and> main Parsed w = fatalf (''Syntax error: you can not combine the -'' @ logFlag @ '' and the -''
                      @ foregroundFlag @ '' option.'') 2 (started w))"
    using c by (simp add: main_unfold)
  moreover from this have "cronolize w rs = main Parsed w"
    by (intro cronolize_not_blocked) auto
  ultimately show ?thesis
    by (auto simp: marker_events_def logFlag_def foregroundFlag_def)
qed

theorem fg_and_log_rejected_witness:
  "logFlag \<in> set (flag_Visited example_fg_log) \<and> foregroundFlag \<in> set (flag_Visited example_fg_log)
   \<and> snd (cronolize example_fg_log [Fire, Return (ExitStatus 0)]) = Exited 1
   \<and> trace (fst (cronolize example_fg_log [Fire, Return (ExitStatus 0)])) =
       [LookupEnv ''__CRONOLIZER__'',
        Write StderrFile (''Syntax error: you can not combine the -log and the -fg option.'' @ [newline])]"
  using fg_and_log_rejected [of example_fg_log "[Fire, Return (ExitStatus 0)]"]
  by (simp add: example_fg_log_def example_world_def logFlag_def foregroundFlag_def
      marker_events_def cronolizerEnvVar_def)

subsection \<open>A malformed recurrence expression\<close>

text \<open>
  Claim C9. When \<open>AddFunc\<close> rejects the expression, the process ends with status 1; its
  trace holds no start of a child, no start of the scheduler and no firing. Where the
  run gets as far as \<open>AddFunc\<close>, the call is followed by the line of the error and
  nothing else. This holds in every mode, so also for the first phase of the default
  background mode.
\<close>

theorem parse_error_exits_before_relaunch:
  assumes "length (flag_Args w) = 2" and "cron_AddFunc w (flag_Args w ! 0) = Some err"
  shows "snd (cronolize w rs) = Exited 1
       \<and> (\<forall>c e. CmdStart c e \<notin> set (trace (fst (cronolize w rs))))
       \<and> CronStart \<notin> set (trace (fst (cronolize w rs)))
       \<and> (\<forall>c e. CmdRun c e \<notin> set (trace (fst (cronolize w rs))))
       \<and> (AddFunc (flag_Args w ! 0) \<in> set (trace (fst (cronolize w rs))) \<longrightarrow>
            (\<exists>pre f. trace (fst (cronolize w rs)) =
               pre @ [AddFunc (flag_Args w ! 0), Write f (''Error: '' @ error_text err @ [newline])]))"
proof (rule main_cases [of w])
  assume "length (flag_Args w) \<noteq> 2"
  with assms show ?thesis by simp
next
  assume a: "length (flag_Args w) = 2" "flags_conflict w"
  have "cronolize w rs = main Parsed w"
    by (rule cronolize_not_blocked) (simp add: main_conflict [OF a])
  then show ?thesis
    by (auto simp: main_conflict [OF a] marker_events_def)
next
  assume a: "length (flag_Args w) = 2" "\<not> flags_conflict w" "snd (logged w) = Exited 1"
  have "cronolize w rs = main Parsed w"
    by (rule cronolize_not_blocked) (simp add: main_log_failed [OF a])
  then show ?thesis
    by (simp add: main_log_failed [OF a])
next
  fix err'
  assume a: "length (flag_Args w) = 2" "\<not> flags_conflict w" "snd (logged w) = Returned"
    "cron_AddFunc w (flag_Args w ! 0) = Some err'"
  with assms have e: "err' = err" by simp
  have "cronolize w rs = main Parsed w"
    by (rule cronolize_not_blocked) (simp add: main_parse_error [OF a])
  then show ?thesis
    by (simp add: main_parse_error [OF a] e registered_def)
qed (use assms in simp_all)

theorem parse_error_exits_before_relaunch_witness:
  "length (flag_Args example_bad_spec) = 2
   \<and> cron_AddFunc example_bad_spec (flag_Args example_bad_spec ! 0)
       = Some (GoError False ''end of range (61) above maximum (59): 61'')
   \<and> \<not> flag_fg example_bad_spec \<and> \<not> isCronProcess example_bad_spec
   \<and> snd (cronolize example_bad_spec [Fire, Return (ExitStatus 0)]) = Exited 1
   \<and> trace (fst (cronolize example_bad_spec [Fire, Return (ExitStatus 0)])) =
       [LookupEnv ''__CRONOLIZER__'', EvalSymlinks ''/dev/null'',
        OpenFile ''/dev/null'' [O_WRONLY, O_CREATE, O_APPEND] 438,
        Close (LogFile ''/dev/null''), AddFunc ''61 * * * *'',
        Write StderrFile (''Error: end of range (61) above maximum (59): 61'' @ [newline])]"
  using parse_error_exits_before_relaunch
    [of example_bad_spec "GoError False ''end of range (61) above maximum (59): 61''" "[Fire, Return (ExitStatus 0)]"]
  by (simp add: example_bad_spec_def example_world_def run_defs)

subsection \<open>A firing that fails\<close>

lemma cmd_Run_failed:
  "failed = SpawnFailed msg \<or> (\<exists>n. failed = ExitStatus n \<and> n \<noteq> 0) \<Longrightarrow>
   cmd_Run failed = Some (GoError False (case failed of SpawnFailed m \<Rightarrow> m
                                         | ExitStatus n \<Rightarrow> ''exit status '' @ show_nat n))"
  by (auto simp: cmd_Run_def)

lemma cronolize_alive:
  assumes "snd (cronolize w pre) = Blocked"
  shows "blocking w" "survives 0 pre"
    "cronolize w (pre @ ts) = firings w ts (pending 0 pre) (fst (cronolize w pre))"
proof -
  show b: "blocking w"
  proof (rule ccontr)
    assume "\<not> blocking w"
    with assms show False by (simp add: cronolize_outcome blocking_iff)
  qed
  from assms b show "survives 0 pre" by (simp add: cronolize_outcome split: if_splits)
  note c = cronolize_blocked [OF main_blocking [OF b]]
  from assms have "snd (firings w pre 0 (emit CronStart (registered w))) = Blocked"
    by (simp add: c)
  from firings_append [OF this]
  show "cronolize w (pre @ ts) = firings w ts (pending 0 pre) (fst (cronolize w pre))"
    by (simp add: c)
qed

text \<open>
  Claim C2. The process is in the blocking phase and alive after the ticks \<open>pre\<close>, in
  which firings may overlap in any way, and at least one call of \<open>cmd.Run()\<close> is under
  way. One of them returns because the command could not be started or exited with a
  status other than 0. Then the process ends with status 1; what it adds to the trace is
  the one line \<open>Error: ...\<close> on the current \<open>os.Stderr\<close> and nothing else; and the ticks
  given after the failed return change nothing: no later firing and no later return
  takes place.
\<close>

theorem failed_firing_terminates:
  assumes "snd (cronolize w pre) = Blocked"
      and "0 < pending 0 pre"
      and "failed = SpawnFailed msg \<or> (\<exists>n. failed = ExitStatus n \<and> n \<noteq> 0)"
  shows "snd (cronolize w (pre @ Return failed # rest)) = Exited 1
       \<and> cronolize w (pre @ Return failed # rest) = cronolize w (pre @ [Return failed])
       \<and> trace (fst (cronolize w (pre @ Return failed # rest))) =
           trace (fst (cronolize w pre)) @
           [Write (if redirected w then LogFile (logfile_path w) else StderrFile)
              (''Error: '' @ (case failed of SpawnFailed m \<Rightarrow> m
                              | ExitStatus n \<Rightarrow> ''exit status '' @ show_nat n) @ [newline])]"
proof -
  note a = cronolize_alive [OF assms(1)]
  note f = cmd_Run_failed [OF assms(3)]
  define s where "s = fst (cronolize w pre)"
  have st: "os_Stderr s = (if redirected w then LogFile (logfile_path w) else StderrFile)"
    unfolding s_def
    by (simp add: cronolize_blocked [OF main_blocking [OF a(1)]])
  have r: "firings w (Return failed # ts) (pending 0 pre) s =
             fatal [case failed of SpawnFailed m \<Rightarrow> m
                    | ExitStatus n \<Rightarrow> ''exit status '' @ show_nat n] s" for ts
    using assms(2) by (simp add: onFire_return_def f fatal_def)
  have 1: "cronolize w (pre @ Return failed # ts) =
             fatal [case failed of SpawnFailed m \<Rightarrow> m
                    | ExitStatus n \<Rightarrow> ''exit status '' @ show_nat n] s" for ts
    using a(3) [of "Return failed # ts"] r [of ts] by (simp add: s_def)
  from 1 [of rest] 1 [of "[]"] st show ?thesis
    by (simp add: s_def [symmetric])
qed

theorem failed_firing_terminates_witness:
  "snd (cronolize example_child [Fire, Fire, Fire]) = Blocked
   \<and> pending 0 [Fire, Fire, Fire] = 3
   \<and> length (runs (trace (fst (cronolize example_child [Fire, Fire, Fire])))) = 3
   \<and> snd (cronolize example_child ([Fire, Fire, Fire] @ Return (ExitStatus 3) # [Return (ExitStatus 0), Fire]))
       = Exited 1
   \<and> length (runs (trace (fst (cronolize example_child
        ([Fire, Fire, Fire] @ Return (ExitStatus 3) # [Return (ExitStatus 0), Fire]))))) = 3
   \<and> last (trace (fst (cronolize example_child
        ([Fire, Fire, Fire] @ Return (ExitStatus 3) # [Return (ExitStatus 0), Fire]))))
       = Write (LogFile ''/dev/null'') (''Error: exit status 3'' @ [newline])"
  using failed_firing_terminates [of example_child "[Fire, Fire, Fire]" "ExitStatus 3" "[]"
      "[Return (ExitStatus 0), Fire]"]
  by (simp add: example_child_def example_world_def run_defs vocabulary_defs show_nat.simps)

subsection \<open>The standard input of a fired command\<close>

lemma runs_cronolize:
  "set (runs (trace (fst (cronolize w rs)))) \<subseteq>
     {(fired_cmd w (registered w), (os_Environ w)(cronolizerEnvVar := None))}"
  using runs_firings [of w "registered w" 0 rs] by (simp add: cronolize_trace)

lemma starts_cronolize:
  "starts (trace (fst (cronolize w rs))) =
     (if relaunching w \<and> os_Setenv w cronolizerEnvVar envVarValueExpected = None
      then [(self_cmd w, (os_Environ w)(cronolizerEnvVar \<mapsto> envVarValueExpected))] else [])"
  by (simp add: cronolize_trace starts_startup)

text \<open>
  Claim C3 says that the command of a firing never gets the standard input of the
  scheduler, in foreground and in background mode. In background mode line 208 assigns
  \<open>os.Stdin\<close>: the relaunched copy of the example, run without \<open>-fg\<close>, hands its own
  standard input to the command.
\<close>

theorem command_stdin_counterexample:
  "\<not> flag_fg example_child
   \<and> snd (cronolize example_child [Fire, Return (ExitStatus 0)]) = Blocked
   \<and> map cmd_Stdin (map fst (runs (trace (fst (cronolize example_child [Fire, Return (ExitStatus 0)])))))
       = [Some StdinFile]"
  by (simp add: example_child_def example_world_def run_defs)

text \<open>
  Claim C3 as amended. In every run, the standard input of every command run by a firing
  is \<open>nil\<close> (the null device) when the foreground flag is true and the standard input of
  the scheduler itself otherwise; and the copy that the relaunch starts gets \<open>nil\<close> as
  its standard input, so that a scheduler started by the relaunch reads from the null device.
\<close>

theorem command_stdin_by_mode:
  "(\<forall>c \<in> set (map fst (runs (trace (fst (cronolize w rs))))).
       cmd_Stdin c = (if flag_fg w then None else Some StdinFile))
   \<and> (\<forall>c \<in> set (map fst (starts (trace (fst (cronolize w rs))))). cmd_Stdin c = None)"
  using runs_cronolize [of w rs]
  by (auto simp: starts_cronolize fired_cmd_def self_cmd_def)

theorem command_stdin_by_mode_witness:
  "flag_fg example_fg
   \<and> snd (cronolize example_fg [Fire, Return (ExitStatus 0)]) = Blocked
   \<and> map cmd_Stdin (map fst (runs (trace (fst (cronolize example_fg [Fire, Return (ExitStatus 0)]))))) = [None]
   \<and> \<not> flag_fg example_world
   \<and> snd (cronolize example_world [Fire, Return (ExitStatus 0)]) = Exited 0
   \<and> map cmd_Stdin (map fst (starts (trace (fst (cronolize example_world [Fire, Return (ExitStatus 0)]))))) = [None]"
  using command_stdin_by_mode [of example_fg "[Fire, Return (ExitStatus 0)]"]
    command_stdin_by_mode [of example_world "[Fire, Return (ExitStatus 0)]"]
  by (simp add: example_fg_def example_world_def run_defs show_nat.simps)

subsection \<open>The relaunch\<close>

text \<open>
  Claim C6. Without the foreground flag and without the marker, once the log file could be
  opened, the expression was accepted and \<open>Setenv\<close> and \<open>Start\<close> succeeded, the run is
  exactly this: the lookup of the marker, the log file opened and closed, \<open>AddFunc\<close>,
  the marker set, the program started again by \<open>Start\<close> (which does not wait) with its
  own arguments, the marker in its environment and none of the three streams connected,
  the line with the process identifier on standard output unless \<open>-q\<close> was given, and
  exit status 0. No command is run and waited for.
\<close>

theorem relaunch_branch:
  assumes "length (flag_Args w) = 2"
      and "foregroundFlag \<notin> set (flag_Visited w)" and "\<not> flag_fg w"
      and "os_Environ w cronolizerEnvVar = None"
      and "snd (resolve_logfile w) = Inr lf" and "os_OpenFile w lf (open_flags w) = None"
      and "cron_AddFunc w (flag_Args w ! 0) = None"
      and "os_Setenv w cronolizerEnvVar envVarValueExpected = None"
      and "cmd_Start w (self_cmd w) = Inr pid"
  shows "snd (cronolize w rs) = Exited 0
       \<and> trace (fst (cronolize w rs)) =
           [LookupEnv cronolizerEnvVar,
            EvalSymlinks (fst (resolve_logfile w)),
            OpenFile lf (open_flags w) perm_0666,
            Close (LogFile lf),
            AddFunc (flag_Args w ! 0),
            Setenv cronolizerEnvVar envVarValueExpected,
            CmdStart \<lparr>cmd_Path = os_Args0 w, cmd_Args = os_Args1 w,
                       cmd_Stdin = None, cmd_Stdout = None, cmd_Stderr = None\<rparr>
                     ((os_Environ w)(cronolizerEnvVar \<mapsto> envVarValueExpected))]
           @ (if flag_q w then []
              else [Write StdoutFile (''Running cron job as PID '' @ show_nat pid @ [newline])])
       \<and> runs (trace (fst (cronolize w rs))) = []"
proof -
  from assms have r: "relaunching w" and nb: "\<not> blocking w"
    by (simp_all add: relaunching_def blocking_def parsed_def flags_conflict_def log_opened_def
        isCronProcess_def)
  from assms r nb show ?thesis
    by (simp add: cronolize_outcome cronolize_trace main_outcome startup_events_def
        marker_events_def log_events_def relaunch_events_def relaunching_def parsed_def
        isCronProcess_def self_cmd_def)
qed

theorem relaunch_branch_witness:
  "length (flag_Args example_world) = 2
   \<and> foregroundFlag \<notin> set (flag_Visited example_world) \<and> \<not> flag_fg example_world
   \<and> os_Environ example_world cronolizerEnvVar = None
   \<and> snd (cronolize example_world [Fire, Return (ExitStatus 0)]) = Exited 0
   \<and> map fst (starts (trace (fst (cronolize example_world [Fire, Return (ExitStatus 0)])))) =
       [\<lparr>cmd_Path = ''cronolize'', cmd_Args = [''* * * * *'', ''date''],
         cmd_Stdin = None, cmd_Stdout = None, cmd_Stderr = None\<rparr>]
   \<and> last (trace (fst (cronolize example_world [Fire, Return (ExitStatus 0)]))) =
       Write StdoutFile (''Running cron job as PID 4242'' @ [newline])"
  using relaunch_branch [of example_world "''/dev/null''" 4242 "[Fire, Return (ExitStatus 0)]"]
  by (simp add: example_world_def run_defs vocabulary_defs show_nat.simps)

subsection \<open>The marker in the environment\<close>

lemma lookups_append [simp]: "lookups (xs @ ys) = lookups xs @ lookups ys"
  by (induction xs rule: lookups.induct) simp_all

lemma setenvs_append [simp]: "setenvs (xs @ ys) = setenvs xs @ setenvs ys"
  by (induction xs rule: setenvs.induct) simp_all

lemma marker_events_projections [simp]:
  "lookups (marker_events w) = [cronolizerEnvVar]"
  "setenvs (marker_events w) = []"
  "starts (marker_events w) = []"
  by (simp_all add: marker_events_def)

lemma log_events_projections [simp]:
  "lookups (log_events w) = []"
  "setenvs (log_events w) = []"
  "starts (log_events w) = []"
  by (simp_all add: log_events_def split: sum.splits option.splits)

lemma usage_events_projections [simp]:
  "lookups (usage_events w) = []"
  "setenvs (usage_events w) = []"
  by (simp_all add: usage_events_def)

lemma relaunch_events_projections [simp]:
  "lookups (relaunch_events w) = []"
  "setenvs (relaunch_events w) = [(cronolizerEnvVar, envVarValueExpected)]"
  by (simp_all add: relaunch_events_def split: sum.splits option.splits)

lemma firing_events_projections [simp]:
  "lookups (firing_events w s n ts) = []"
  "setenvs (firing_events w s n ts) = []"
  by (induction w s n ts rule: firing_events.induct)
     (simp_all add: call_events_def return_events_def split: option.splits)

lemma lookups_startup [simp]: "lookups (startup_events w) = [cronolizerEnvVar]"
  by (simp add: startup_events_def split: option.splits)

lemma setenvs_startup:
  "setenvs (startup_events w) =
     (if relaunching w then [(cronolizerEnvVar, envVarValueExpected)] else [])"
  by (auto simp: startup_events_def relaunching_def parsed_def split: option.splits)

lemma hd_startup [simp]: "hd (startup_events w @ evs) = LookupEnv cronolizerEnvVar"
  by (simp add: startup_events_def marker_events_def)

lemma relaunching_trace:
  assumes "relaunching w"
  shows "trace (fst (cronolize w rs)) =
           (marker_events w @ log_events w @ [AddFunc (flag_Args w ! 0)]) @
           [Setenv cronolizerEnvVar envVarValueExpected] @
           (case os_Setenv w cronolizerEnvVar envVarValueExpected of
              Some err \<Rightarrow> [Write StderrFile (''Error: '' @ error_text err @ [newline])]
            | None \<Rightarrow>
               CmdStart (self_cmd w) ((os_Environ w)(cronolizerEnvVar \<mapsto> envVarValueExpected)) #
               (case cmd_Start w (self_cmd w) of
                  Inl err \<Rightarrow> [Write StderrFile (''Error: '' @ error_text err @ [newline])]
                | Inr pid \<Rightarrow>
                   if flag_q w then []
                   else [Write StdoutFile (''Running cron job as PID '' @ show_nat pid @ [newline])]))"
  using assms
  by (simp add: cronolize_trace blocking_def relaunching_def parsed_def startup_events_def
      relaunch_events_def)

text \<open>
  Claim C5. In every run, with any firings: the trace looks up exactly one variable, the
  marker, and does so first; after line 125 the environment has no marker, whatever its
  value was; the environment of every command run by a firing has no marker; the
  environment of a copy started by the relaunch holds the marker with the value set at
  line 233, not the value found at the start, and a process that found the expected value
  starts no copy at all; and the trace either sets no variable, or sets the marker once,
  after which, when \<open>Setenv\<close> succeeded, the very next event is the start of the copy.
\<close>

theorem marker_read_once_and_cleared:
  "lookups (trace (fst (cronolize w rs))) = [cronolizerEnvVar]
   \<and> hd (trace (fst (cronolize w rs))) = LookupEnv cronolizerEnvVar
   \<and> environ (snd (read_marker (init w))) cronolizerEnvVar = None
   \<and> (\<forall>e \<in> set (map snd (runs (trace (fst (cronolize w rs))))). e cronolizerEnvVar = None)
   \<and> (\<forall>e \<in> set (map snd (starts (trace (fst (cronolize w rs))))).
         e = (os_Environ w)(cronolizerEnvVar \<mapsto> envVarValueExpected))
   \<and> (os_Environ w cronolizerEnvVar = Some envVarValueExpected \<longrightarrow>
         starts (trace (fst (cronolize w rs))) = [])
   \<and> (setenvs (trace (fst (cronolize w rs))) = []
       \<or> (\<exists>pre post. trace (fst (cronolize w rs)) =
              pre @ [Setenv cronolizerEnvVar envVarValueExpected] @ post
            \<and> setenvs pre = [] \<and> setenvs post = [] \<and> starts pre = []
            \<and> (os_Setenv w cronolizerEnvVar envVarValueExpected = None \<longrightarrow>
                 (\<exists>c e post'. post = CmdStart c e # post'))))"
proof -
  let ?tr = "trace (fst (cronolize w rs))"
  have 1: "lookups ?tr = [cronolizerEnvVar]" and 2: "hd ?tr = LookupEnv cronolizerEnvVar"
    by (simp_all add: cronolize_trace)
  have 3: "environ (snd (read_marker (init w))) cronolizerEnvVar = None"
    by (simp add: read_marker_init)
  have 4: "\<forall>e \<in> set (map snd (runs ?tr)). e cronolizerEnvVar = None"
    using runs_cronolize [of w rs] by auto
  have 5: "\<forall>e \<in> set (map snd (starts ?tr)). e = (os_Environ w)(cronolizerEnvVar \<mapsto> envVarValueExpected)"
    by (auto simp: starts_cronolize)
  have 6: "os_Environ w cronolizerEnvVar = Some envVarValueExpected \<longrightarrow> starts ?tr = []"
    by (simp add: starts_cronolize relaunching_def isCronProcess_def)
  have 7: "setenvs ?tr = []
       \<or> (\<exists>pre post. ?tr = pre @ [Setenv cronolizerEnvVar envVarValueExpected] @ post
            \<and> setenvs pre = [] \<and> setenvs post = [] \<and> starts pre = []
            \<and> (os_Setenv w cronolizerEnvVar envVarValueExpected = None \<longrightarrow>
                 (\<exists>c e post'. post = CmdStart c e # post')))"
  proof (cases "relaunching w")
    case False
    then show ?thesis by (simp add: cronolize_trace setenvs_startup)
  next
    case True
    define pre where "pre = marker_events w @ log_events w @ [AddFunc (flag_Args w ! 0)]"
    define post where "post =
      (case os_Setenv w cronolizerEnvVar envVarValueExpected of
              Some err \<Rightarrow> [Write StderrFile (''Error: '' @ error_text err @ [newline])]
            | None \<Rightarrow>
               CmdStart (self_cmd w) ((os_Environ w)(cronolizerEnvVar \<mapsto> envVarValueExpected)) #
               (case cmd_Start w (self_cmd w) of
                  Inl err \<Rightarrow> [Write StderrFile (''Error: '' @ error_text err @ [newline])]
                | Inr pid \<Rightarrow>
                   if flag_q w then []
                   else [Write StdoutFile (''Running cron job as PID '' @ show_nat pid @ [newline])]))"
    have "?tr = pre @ [Setenv cronolizerEnvVar envVarValueExpected] @ post"
      unfolding pre_def post_def by (rule relaunching_trace [OF True])
    moreover have "setenvs pre = []" "starts pre = []" by (simp_all add: pre_def)
    moreover have "setenvs post = []" by (simp add: post_def split: option.splits sum.splits)
    moreover have "os_Setenv w cronolizerEnvVar envVarValueExpected = None \<longrightarrow>
                 (\<exists>c e post'. post = CmdStart c e # post')" by (simp add: post_def)
    ultimately have "?tr = pre @ [Setenv cronolizerEnvVar envVarValueExpected] @ post
            \<and> setenvs pre = [] \<and> setenvs post = [] \<and> starts pre = []
            \<and> (os_Setenv w cronolizerEnvVar envVarValueExpected = None \<longrightarrow>
                 (\<exists>c e post'. post = CmdStart c e # post'))"
      by simp
    then show ?thesis
      by (intro disjI2 exI [of _ pre] exI [of _ post])
  qed
  from 1 2 3 4 5 6 7 show ?thesis by blast
qed


theorem marker_read_once_and_cleared_witness:
  "os_Environ example_stale cronolizerEnvVar = Some ''stale''
   \<and> environ (snd (read_marker (init example_stale))) cronolizerEnvVar = None
   \<and> lookups (trace (fst (cronolize example_stale [Fire, Return (ExitStatus 0)]))) = [''__CRONOLIZER__'']
   \<and> take 2 (trace (fst (cronolize example_stale [Fire, Return (ExitStatus 0)]))) =
       [LookupEnv ''__CRONOLIZER__'', Unsetenv ''__CRONOLIZER__'']
   \<and> setenvs (trace (fst (cronolize example_stale [Fire, Return (ExitStatus 0)]))) =
       [(''__CRONOLIZER__'', ''INSTANTIATED'')]
   \<and> map (\<lambda>e. e cronolizerEnvVar) (map snd (starts (trace (fst (cronolize example_stale [Fire, Return (ExitStatus 0)])))))
       = [Some ''INSTANTIATED'']
   \<and> map (\<lambda>e. e cronolizerEnvVar) (map snd (runs (trace (fst (cronolize example_child [Fire, Return (ExitStatus 0)])))))
       = [None]
   \<and> starts (trace (fst (cronolize example_child [Fire, Return (ExitStatus 0)]))) = []"
  using marker_read_once_and_cleared [of example_stale "[Fire, Return (ExitStatus 0)]"]
    marker_read_once_and_cleared [of example_child "[Fire, Return (ExitStatus 0)]"]
  by (simp add: example_stale_def example_child_def example_world_def run_defs show_nat.simps)

subsection \<open>The log file in the first phase\<close>




subsection \<open>Fatal conditions of the startup\<close>

lemma writes_append [simp]: "writes (xs @ ys) = writes xs @ writes ys"
  by (induction xs rule: writes.induct) simp_all

lemma writes_marker_events [simp]: "writes (marker_events w) = []"
  by (simp add: marker_events_def)

lemma main_ParseError:
  "snd (main (ParseError msg) w) = Exited 2"
  "trace (fst (main (ParseError msg) w)) =
     marker_events w @ [Write StderrFile (msg @ [newline]), FlagUsage StderrFile]"
  using read_marker_init [of w]
  by (cases "read_marker (init w)"; simp add: main_def flag_Parse_def Fprintln_def)+

lemma main_ParseHelp:
  "snd (main ParseHelp w) = Exited 0"
  "trace (fst (main ParseHelp w)) = marker_events w @ [FlagUsage StderrFile]"
  using read_marker_init [of w]
  by (cases "read_marker (init w)"; simp add: main_def flag_Parse_def)+

lemma process_Parsed: "process Parsed w ts = cronolize w ts"
  by (simp add: cronolize_def)

text \<open>
  Claim C8 says that every fatal condition of the startup prints one line with a leading
  marker to standard error and ends the process with status 1. A command line with an
  undefined flag ends it with status 2, inside \<open>flag.Parse()\<close>. Without arguments the
  process writes the usage text, five writes of which none starts with the marker. And
  the relaunched copy, which has already redirected \<open>os.Stderr\<close>, writes the error of a
  rejected expression to its log file and nothing to standard error.
\<close>

theorem startup_fatal_counterexample:
  "snd (main (ParseError ''flag provided but not defined: -bogus'') example_bogus) = Exited 2
   \<and> snd (main Parsed example_noargs) = Exited 1
   \<and> length (writes (trace (fst (main Parsed example_noargs)))) = 5
   \<and> take 3 (writes (trace (fst (main Parsed example_noargs)))) =
       [(StderrFile, ''Welcome to cronolize 0 (C) 2022 SA6MWA https://github.com/sa6mwa/cronolizer'' @ [newline]),
        (StderrFile, [newline]),
        (StderrFile, ''Syntax: cronolize [options] cronSpec command'' @ [newline])]
   \<and> snd (main Parsed example_bad_spec_child) = Exited 1
   \<and> writes (trace (fst (main Parsed example_bad_spec_child))) =
       [(LogFile ''/dev/null'', ''Error: end of range (61) above maximum (59): 61'' @ [newline])]"
  by (simp add: example_bogus_def example_noargs_def example_bad_spec_child_def example_bad_spec_def
      example_world_def run_defs)

text \<open>
  Claim C8 as amended. Every way in which the startup fails ends the process before the
  scheduler is started and before any command is run. A command line that \<open>flag.Parse()\<close>
  rejects ends it with status 2, after the message of \<open>flag\<close> and the usage of the flags
  on standard error. Every other failure ends it with status 1: a wrong number of
  positional arguments after the usage text on standard error; the combination of \<open>-fg\<close>
  and \<open>-log\<close> after the single line \<open>Syntax error: ...\<close> on standard error; a failed
  resolution or open of the log file, and a failed \<open>Setenv\<close> or \<open>Start\<close> of the relaunch,
  after the single line \<open>Error: ...\<close> on standard error; a rejected expression after the
  single line \<open>Error: ...\<close>, on the log file in a relaunched background process and on
  standard error otherwise. The startup ends with status 2 only in the first case, and
  with status 0 only for \<open>-h\<close> and for a relaunch that succeeded; in every other case it
  ends with status 1 or reaches the blocking phase.
\<close>

theorem startup_fatal_exits:
  "(snd (process (ParseError msg) w ts) = Exited 2
    \<and> trace (fst (process (ParseError msg) w ts)) =
        marker_events w @ [Write StderrFile (msg @ [newline]), FlagUsage StderrFile])
   \<and> (length (flag_Args w) \<noteq> 2 \<longrightarrow>
      snd (process Parsed w ts) = Exited 1
      \<and> trace (fst (process Parsed w ts)) = marker_events w @
          [Write StderrFile (''Welcome to cronolize '' @ version w @ '' (C) 2022 SA6MWA https://github.com/sa6mwa/cronolizer'' @ [newline]),
           Write StderrFile [newline],
           Write StderrFile (''Syntax: '' @ os_Args0 w @ '' [options] cronSpec command'' @ [newline]),
           Write StderrFile [newline],
           FlagUsage StderrFile,
           Write StderrFile (helpMsg @ [newline])])
   \<and> (length (flag_Args w) = 2 \<and> flags_conflict w \<longrightarrow>
      snd (process Parsed w ts) = Exited 1
      \<and> writes (trace (fst (process Parsed w ts))) =
          [(StderrFile, ''Syntax error: you can not combine the -log and the -fg option.'' @ [newline])])
   \<and> (length (flag_Args w) = 2 \<and> \<not> flags_conflict w \<and> \<not> flag_fg w
       \<and> snd (resolve_logfile w) = Inl err \<longrightarrow>
      snd (process Parsed w ts) = Exited 1
      \<and> writes (trace (fst (process Parsed w ts))) = [(StderrFile, ''Error: '' @ error_text err @ [newline])])
   \<and> (length (flag_Args w) = 2 \<and> \<not> flags_conflict w \<and> \<not> flag_fg w
       \<and> snd (resolve_logfile w) = Inr lf \<and> os_OpenFile w lf (open_flags w) = Some err \<longrightarrow>
      snd (process Parsed w ts) = Exited 1
      \<and> writes (trace (fst (process Parsed w ts))) = [(StderrFile, ''Error: '' @ error_text err @ [newline])])
   \<and> (length (flag_Args w) = 2 \<and> \<not> flags_conflict w \<and> log_opened w
       \<and> cron_AddFunc w (flag_Args w ! 0) = Some err \<longrightarrow>
      snd (process Parsed w ts) = Exited 1
      \<and> writes (trace (fst (process Parsed w ts))) =
          [(if \<not> flag_fg w \<and> isCronProcess w then LogFile (logfile_path w) else StderrFile,
            ''Error: '' @ error_text err @ [newline])])
   \<and> (relaunching w \<and> os_Setenv w cronolizerEnvVar envVarValueExpected = Some err \<longrightarrow>
      snd (process Parsed w ts) = Exited 1
      \<and> writes (trace (fst (process Parsed w ts))) = [(StderrFile, ''Error: '' @ error_text err @ [newline])])
   \<and> (relaunching w \<and> os_Setenv w cronolizerEnvVar envVarValueExpected = None
       \<and> cmd_Start w (self_cmd w) = Inl err \<longrightarrow>
      snd (process Parsed w ts) = Exited 1
      \<and> writes (trace (fst (process Parsed w ts))) = [(StderrFile, ''Error: '' @ error_text err @ [newline])])
   \<and> (snd (main pr w) = Exited 2 \<longleftrightarrow> (\<exists>m. pr = ParseError m))
   \<and> (snd (main pr w) = Exited 0 \<longleftrightarrow>
        pr = ParseHelp
        \<or> (pr = Parsed \<and> relaunching w \<and> os_Setenv w cronolizerEnvVar envVarValueExpected = None
            \<and> (\<exists>pid. cmd_Start w (self_cmd w) = Inr pid)))
   \<and> (snd (main pr w) = Blocked \<or> snd (main pr w) = Exited 0 \<or> snd (main pr w) = Exited 1
       \<or> snd (main pr w) = Exited 2)
   \<and> (snd (main pr w) \<noteq> Blocked \<longrightarrow>
      CronStart \<notin> set (trace (fst (process pr w ts))) \<and> runs (trace (fst (process pr w ts))) = [])"
proof -
  let ?tr = "trace (fst (process Parsed w ts))"
  have 0: "snd (process (ParseError msg) w ts) = Exited 2
    \<and> trace (fst (process (ParseError msg) w ts)) =
        marker_events w @ [Write StderrFile (msg @ [newline]), FlagUsage StderrFile]"
    by (simp add: process_not_blocked main_ParseError)
  have 1: "length (flag_Args w) \<noteq> 2 \<longrightarrow>
      snd (process Parsed w ts) = Exited 1
      \<and> ?tr = marker_events w @
          [Write StderrFile (''Welcome to cronolize '' @ version w @ '' (C) 2022 SA6MWA https://github.com/sa6mwa/cronolizer'' @ [newline]),
           Write StderrFile [newline],
           Write StderrFile (''Syntax: '' @ os_Args0 w @ '' [options] cronSpec command'' @ [newline]),
           Write StderrFile [newline],
           FlagUsage StderrFile,
           Write StderrFile (helpMsg @ [newline])]"
    by (simp add: process_Parsed cronolize_outcome cronolize_trace main_outcome blocking_def
        relaunching_def parsed_def startup_events_def usage_events_def)
  have 2: "length (flag_Args w) = 2 \<and> flags_conflict w \<longrightarrow>
      snd (process Parsed w ts) = Exited 1
      \<and> writes ?tr =
          [(StderrFile, ''Syntax error: you can not combine the -log and the -fg option.'' @ [newline])]"
    by (simp add: process_Parsed cronolize_outcome cronolize_trace main_outcome blocking_def
        relaunching_def parsed_def startup_events_def)
  have 3: "length (flag_Args w) = 2 \<and> \<not> flags_conflict w \<and> \<not> flag_fg w
       \<and> snd (resolve_logfile w) = Inl err \<longrightarrow>
      snd (process Parsed w ts) = Exited 1
      \<and> writes ?tr = [(StderrFile, ''Error: '' @ error_text err @ [newline])]"
    by (simp add: process_Parsed cronolize_outcome cronolize_trace main_outcome blocking_def
        relaunching_def parsed_def startup_events_def log_opened_def log_events_def)
  have 4: "length (flag_Args w) = 2 \<and> \<not> flags_conflict w \<and> \<not> flag_fg w
       \<and> snd (resolve_logfile w) = Inr lf \<and> os_OpenFile w lf (open_flags w) = Some err \<longrightarrow>
      snd (process Parsed w ts) = Exited 1
      \<and> writes ?tr = [(StderrFile, ''Error: '' @ error_text err @ [newline])]"
    by (simp add: process_Parsed cronolize_outcome cronolize_trace main_outcome blocking_def
        relaunching_def parsed_def startup_events_def log_opened_def log_events_def)
  have w: "log_opened w \<Longrightarrow> writes (log_events w) = []"
    by (auto simp: log_opened_def log_events_def split: sum.splits option.splits)
  have 5: "length (flag_Args w) = 2 \<and> \<not> flags_conflict w \<and> log_opened w
       \<and> cron_AddFunc w (flag_Args w ! 0) = Some err \<longrightarrow>
      snd (process Parsed w ts) = Exited 1
      \<and> writes ?tr =
          [(if \<not> flag_fg w \<and> isCronProcess w then LogFile (logfile_path w) else StderrFile,
            ''Error: '' @ error_text err @ [newline])]"
    by (simp add: process_Parsed cronolize_outcome cronolize_trace main_outcome blocking_def
        relaunching_def parsed_def startup_events_def redirected_def w)
  have 6: "relaunching w \<and> os_Setenv w cronolizerEnvVar envVarValueExpected = Some err \<longrightarrow>
      snd (process Parsed w ts) = Exited 1
      \<and> writes ?tr = [(StderrFile, ''Error: '' @ error_text err @ [newline])]"
    by (simp add: process_Parsed cronolize_outcome cronolize_trace main_outcome blocking_def
        relaunching_def parsed_def startup_events_def relaunch_events_def w)
  have 7: "relaunching w \<and> os_Setenv w cronolizerEnvVar envVarValueExpected = None
       \<and> cmd_Start w (self_cmd w) = Inl err \<longrightarrow>
      snd (process Parsed w ts) = Exited 1
      \<and> writes ?tr = [(StderrFile, ''Error: '' @ error_text err @ [newline])]"
    by (simp add: process_Parsed cronolize_outcome cronolize_trace main_outcome blocking_def
        relaunching_def parsed_def startup_events_def relaunch_events_def w)
  have o: "snd (main pr w) =
      (case pr of
         ParseError m \<Rightarrow> Exited 2
       | ParseHelp \<Rightarrow> Exited 0
       | Parsed \<Rightarrow>
          (if blocking w then Blocked
           else if relaunching w \<and> os_Setenv w cronolizerEnvVar envVarValueExpected = None
                   \<and> (\<exists>pid. cmd_Start w (self_cmd w) = Inr pid)
           then Exited 0 else Exited 1))"
    by (cases pr) (simp_all add: main_outcome main_ParseError main_ParseHelp)
  have 8: "snd (main pr w) = Exited 2 \<longleftrightarrow> (\<exists>m. pr = ParseError m)"
    unfolding o by (cases pr) simp_all
  have 9: "snd (main pr w) = Exited 0 \<longleftrightarrow>
        pr = ParseHelp
        \<or> (pr = Parsed \<and> relaunching w \<and> os_Setenv w cronolizerEnvVar envVarValueExpected = None
            \<and> (\<exists>pid. cmd_Start w (self_cmd w) = Inr pid))"
    unfolding o by (cases pr) (auto simp: blocking_def relaunching_def)
  have 10: "snd (main pr w) = Blocked \<or> snd (main pr w) = Exited 0 \<or> snd (main pr w) = Exited 1
       \<or> snd (main pr w) = Exited 2"
    unfolding o by (cases pr) simp_all
  have 11: "snd (main pr w) \<noteq> Blocked \<longrightarrow>
      CronStart \<notin> set (trace (fst (process pr w ts))) \<and> runs (trace (fst (process pr w ts))) = []"
  proof (cases pr)
    case Parsed
    then show ?thesis
      by (auto simp: process_Parsed blocking_iff cronolize_trace startup_events_def blocking_def
          parsed_def marker_events_def usage_events_def log_events_def relaunch_events_def
          split: if_splits sum.splits option.splits)
  next
    case ParseHelp
    then show ?thesis
      by (simp add: process_not_blocked main_ParseHelp marker_events_def)
  next
    case (ParseError m)
    then show ?thesis
      by (simp add: process_not_blocked main_ParseError marker_events_def)
  qed
  from 0 1 2 3 4 5 6 7 8 9 10 11 show ?thesis by blast
qed

theorem startup_fatal_exits_witness:
  "snd (process (ParseError ''flag provided but not defined: -bogus'') example_bogus [Fire]) = Exited 2
   \<and> length (flag_Args example_noargs) \<noteq> 2
   \<and> snd (process Parsed example_noargs [Fire]) = Exited 1
   \<and> length (flag_Args example_fg_log) = 2 \<and> flags_conflict example_fg_log
   \<and> snd (process Parsed example_fg_log [Fire]) = Exited 1
   \<and> writes (trace (fst (process Parsed example_fg_log [Fire]))) =
       [(StderrFile, ''Syntax error: you can not combine the -log and the -fg option.'' @ [newline])]
   \<and> snd (resolve_logfile example_unresolvable) =
       Inl (GoError False ''lstat out.log: permission denied'')
   \<and> snd (process Parsed example_unresolvable [Fire]) = Exited 1
   \<and> writes (trace (fst (process Parsed example_unresolvable [Fire]))) =
       [(StderrFile, ''Error: lstat out.log: permission denied'' @ [newline])]
   \<and> os_OpenFile example_unwritable ''out.log'' (open_flags example_unwritable) =
       Some (GoError False ''open out.log: permission denied'')
   \<and> snd (process Parsed example_unwritable [Fire]) = Exited 1
   \<and> writes (trace (fst (process Parsed example_unwritable [Fire]))) =
       [(StderrFile, ''Error: open out.log: permission denied'' @ [newline])]
   \<and> log_opened example_bad_spec
   \<and> snd (process Parsed example_bad_spec [Fire]) = Exited 1
   \<and> writes (trace (fst (process Parsed example_bad_spec [Fire]))) =
       [(StderrFile, ''Error: end of range (61) above maximum (59): 61'' @ [newline])]
   \<and> CronStart \<notin> set (trace (fst (process Parsed example_bad_spec [Fire])))"
  using startup_fatal_exits [where w = example_bogus and ts = "[Fire]" and pr = Parsed
      and msg = "''flag provided but not defined: -bogus''"]
    startup_fatal_exits [where w = example_noargs and ts = "[Fire]" and pr = Parsed]
    startup_fatal_exits [where w = example_fg_log and ts = "[Fire]" and pr = Parsed]
    startup_fatal_exits [where w = example_unresolvable and ts = "[Fire]" and pr = Parsed
      and err = "GoError False ''lstat out.log: permission denied''"]
    startup_fatal_exits [where w = example_unwritable and ts = "[Fire]" and pr = Parsed
      and lf = "''out.log''" and err = "GoError False ''open out.log: permission denied''"]
    startup_fatal_exits [where w = example_bad_spec and ts = "[Fire]" and pr = Parsed
      and err = "GoError False ''end of range (61) above maximum (59): 61''"]
  by (simp add: example_bogus_def example_noargs_def example_fg_log_def example_unresolvable_def
      example_unwritable_def example_truncate_def example_bad_spec_def example_world_def
      run_defs vocabulary_defs)

subsection \<open>The recurrence engine\<close>

lemma scan_sound:
  "scan sp n c = Some r \<Longrightarrow>
   (\<exists>k < n. r = c + 60 * k \<and> matches sp r \<and> (\<forall>j < k. \<not> matches sp (c + 60 * j)))"
proof (induction n arbitrary: c)
  case 0
  then show ?case by simp
next
  case (Suc n)
  show ?case
  proof (cases "matches sp c")
    case True
    with Suc.prems have "r = c" by simp
    with True show ?thesis by (intro exI [of _ 0]) simp
  next
    case False
    with Suc.prems have "scan sp n (c + 60) = Some r" by simp
    from Suc.IH [OF this] obtain k where k: "k < n" "r = c + 60 + 60 * k" "matches sp r"
      "\<forall>j < k. \<not> matches sp (c + 60 + 60 * j)" by auto
    have "\<forall>j < Suc k. \<not> matches sp (c + 60 * j)"
    proof (intro allI impI)
      fix j assume "j < Suc k"
      show "\<not> matches sp (c + 60 * j)"
      proof (cases j)
        case 0
        with False show ?thesis by simp
      next
        case (Suc i)
        with \<open>j < Suc k\<close> k(4) have "\<not> matches sp (c + 60 + 60 * i)" by simp
        with Suc show ?thesis by (simp add: add.assoc)
      qed
    qed
    with k show ?thesis by (intro exI [of _ "Suc k"]) simp
  qed
qed

lemma scan_none:
  "scan sp n c = None \<longleftrightarrow> (\<forall>k < n. \<not> matches sp (c + 60 * k))"
proof (induction n arbitrary: c)
  case 0
  show ?case by simp
next
  case (Suc n)
  have "(\<forall>k < Suc n. \<not> matches sp (c + 60 * k)) \<longleftrightarrow>
        (\<not> matches sp c \<and> (\<forall>k < n. \<not> matches sp (c + 60 + 60 * k)))"
  proof
    assume a: "\<forall>k < Suc n. \<not> matches sp (c + 60 * k)"
    then have "\<not> matches sp (c + 60 * 0)" by blast
    moreover have "\<not> matches sp (c + 60 + 60 * k)" if "k < n" for k
      using a [rule_format, of "Suc k"] that by (simp add: add.assoc)
    ultimately show "\<not> matches sp c \<and> (\<forall>k < n. \<not> matches sp (c + 60 + 60 * k))" by simp
  next
    assume a: "\<not> matches sp c \<and> (\<forall>k < n. \<not> matches sp (c + 60 + 60 * k))"
    show "\<forall>k < Suc n. \<not> matches sp (c + 60 * k)"
    proof (intro allI impI)
      fix k assume "k < Suc n"
      then show "\<not> matches sp (c + 60 * k)" using a by (cases k) (auto simp: add.assoc)
    qed
  qed
  with Suc.IH [of "c + 60"] show ?case by simp
qed


lemma scan_hit: "0 < n \<Longrightarrow> matches sp c \<Longrightarrow> scan sp n c = Some c"
  by (cases n) simp_all

lemma search_horizon_pos: "0 < search_horizon"
  by (simp add: search_horizon_def)

lemma next_instant_hit:
  "matches sp (first_candidate t) \<Longrightarrow> next_instant sp t = Inr (first_candidate t)"
  by (simp add: next_instant_def scan_hit [OF search_horizon_pos])


lemma first_candidate_bounds:
  "after < first_candidate after" "first_candidate after \<le> after + 60"
  "first_candidate after mod 60 = 0"
proof -
  have "after = (after div 60) * 60 + after mod 60" by simp
  moreover have "after mod 60 < 60" by simp
  ultimately show "after < first_candidate after" "first_candidate after \<le> after + 60"
    unfolding first_candidate_def by linarith+
  show "first_candidate after mod 60 = 0" by (simp add: first_candidate_def)
qed

lemma aligned_after:
  assumes "t < u" and "u mod 60 = 0"
  shows "\<exists>j. u = first_candidate t + 60 * j"
proof -
  define q where "q = u div 60"
  define p where "p = t div 60"
  from assms(2) have u: "u = q * 60" using div_mult_mod_eq [of u 60] by (simp add: q_def)
  with assms(1) have "t < q * 60" by simp
  then have "p < q" by (simp add: p_def div_less_iff_less_mult)
  then obtain d where d: "q = p + 1 + d" by (auto simp: less_iff_Suc_add)
  have "u = first_candidate t + 60 * d"
    unfolding u d first_candidate_def p_def [symmetric] by (simp add: algebra_simps)
  then show ?thesis ..
qed

lemma next_instant_Inr:
  assumes "next_instant sp t = Inr r"
  shows "t < r" "r mod 60 = 0" "matches sp r" "r < first_candidate t + 60 * search_horizon"
    "\<forall>u. t < u \<and> u < r \<and> u mod 60 = 0 \<longrightarrow> \<not> matches sp u"
proof -
  define c where "c = first_candidate t"
  from assms have "scan sp search_horizon c = Some r"
    by (simp add: next_instant_def c_def split: option.splits)
  from scan_sound [OF this] obtain k where k: "k < search_horizon"
    "r = c + 60 * k" "matches sp r"
    "\<forall>j < k. \<not> matches sp (c + 60 * j)" by blast
  have c: "t < c" "c mod 60 = 0"
    unfolding c_def by (rule first_candidate_bounds)+
  from c(1) k(2) show "t < r" by linarith
  from c(2) k(2) show "r mod 60 = 0" by (simp only: mod_add_left_eq [symmetric, of c 60]) simp
  from k(3) show "matches sp r" .
  from k(1,2) show "r < first_candidate t + 60 * search_horizon"
    unfolding c_def by linarith
  show "\<forall>u. t < u \<and> u < r \<and> u mod 60 = 0 \<longrightarrow> \<not> matches sp u"
  proof (intro allI impI)
    fix u assume "t < u \<and> u < r \<and> u mod 60 = 0"
    then have u: "t < u" "u < r" "u mod 60 = 0" by simp_all
    from aligned_after [OF u(1) u(3)] obtain j where j: "u = c + 60 * j"
      unfolding c_def ..
    from u(2) have "c + 60 * j < c + 60 * k" unfolding j k(2) .
    then have "j < k" by simp
    from k(4) [rule_format, OF this] show "\<not> matches sp u" unfolding j .
  qed
qed

lemma next_instant_Inl:
  "next_instant sp t = Inl e \<longleftrightarrow> (\<forall>k < search_horizon. \<not> matches sp (first_candidate t + 60 * k))"
  using scan_none [of sp search_horizon "first_candidate t"]
  by (cases e) (auto simp: next_instant_def split: option.splits)

lemma next_day_valid:
  assumes "1 \<le> m" "m \<le> 12" "1 \<le> d" "d \<le> days_in_month y m" and "next_day (y, m, d) = (y', m', d')"
  shows "1 \<le> m' \<and> m' \<le> 12 \<and> 1 \<le> d' \<and> d' \<le> days_in_month y' m'"
  using assms by (auto simp: days_in_month_def split: if_splits)

lemma civil_valid:
  "civil n = (y, m, d) \<Longrightarrow> 1 \<le> m \<and> m \<le> 12 \<and> 1 \<le> d \<and> d \<le> days_in_month y m"
proof (induction n arbitrary: y m d)
  case 0
  then show ?case by (simp add: civil_def days_in_month_def)
next
  case (Suc n)
  obtain y0 m0 d0 where c: "civil n = (y0, m0, d0)" by (cases "civil n") auto
  from Suc.IH [OF c] have v: "1 \<le> m0" "m0 \<le> 12" "1 \<le> d0" "d0 \<le> days_in_month y0 m0" by simp_all
  from Suc.prems c have "next_day (y0, m0, d0) = (y, m, d)" by (simp add: civil_def)
  from next_day_valid [OF v this] show ?case .
qed

lemma february_short: "month_of t = 2 \<Longrightarrow> day_of_month_of t \<le> 29"
proof -
  assume m: "month_of t = 2"
  obtain y mo d where c: "civil (t div 86400) = (y, mo, d)" by (cases "civil (t div 86400)") auto
  with m have "mo = 2" by (simp add: month_of_def)
  with civil_valid [OF c] have "d \<le> 29" by (simp add: days_in_month_def split: if_splits)
  with c show ?thesis by (simp add: day_of_month_of_def)
qed

lemma february_31_never: "\<not> matches february_31 t"
  using february_short [of t] by (auto simp: matches_def day_matches_def february_31_def)

text \<open>
  Claim C4 says that for every valid expression and every instant \<open>t\<close> the engine returns
  an instant later than \<open>t\<close> that satisfies every restricted field, with no instant in
  between that satisfies all fields. For \<open>0 0 31 2 *\<close> it returns the internal error;
  for \<open>* * 2 * 4\<close> from the epoch it returns 00:01 of Thursday the 1st, which does not
  satisfy the restricted day-of-month field; and for \<open>* * * * *\<close> from second 30 it returns
  second 60 although second 45, in between, satisfies all five fields.
\<close>

theorem next_instant_counterexample:
  "valid_spec february_31 \<and> next_instant february_31 0 = Inl SearchExhausted
   \<and> valid_spec second_or_thursday \<and> next_instant second_or_thursday 0 = Inr 60
   \<and> day_of_month second_or_thursday = Values [2]
   \<and> \<not> accepts (day_of_month second_or_thursday) (day_of_month_of 60)
   \<and> valid_spec every_minute \<and> next_instant every_minute 30 = Inr 60
   \<and> matches every_minute 45"
proof -
  have 1: "next_instant february_31 0 = Inl SearchExhausted"
    by (simp add: next_instant_Inl february_31_never)
  have c0: "civil 0 = (1970, 1, 1)" by (simp add: civil_def)
  have d: "day_of_month_of 60 = 1" "day_of_week_of 60 = 4"
    by (simp_all add: day_of_month_of_def day_of_week_of_def c0)
  have "matches second_or_thursday 60"
    by (simp add: matches_def day_matches_def second_or_thursday_def d)
  then have 2: "next_instant second_or_thursday 0 = Inr 60"
    using next_instant_hit [of second_or_thursday 0] by (simp add: first_candidate_def)
  have m: "matches every_minute t" for t
    by (simp add: matches_def day_matches_def every_minute_def)
  then have 3: "next_instant every_minute 30 = Inr 60"
    using next_instant_hit [of every_minute 30] by (simp add: first_candidate_def)
  from 1 2 3 d m show ?thesis
    by (simp add: valid_spec_def february_31_def second_or_thursday_def every_minute_def)
qed

text \<open>
  Claim C4 as amended. When the engine returns an instant, it is later than the reference
  instant and on a minute boundary; it satisfies the minute, hour and month fields and
  the day rule (either of day-of-month and day-of-week when both are restricted, both
  otherwise); and no minute boundary strictly in between matches. It returns an instant
  whenever some minute boundary within the search horizon matches, and the internal
  error otherwise.
\<close>

theorem next_instant_earliest_match:
  "(next_instant sp t = Inr r \<longrightarrow>
      t < r \<and> r mod 60 = 0
      \<and> accepts (minute sp) (minute_of r) \<and> accepts (hour sp) (hour_of r)
      \<and> accepts (month sp) (month_of r)
      \<and> (if day_of_month sp \<noteq> Wildcard \<and> day_of_week sp \<noteq> Wildcard
          then accepts (day_of_month sp) (day_of_month_of r) \<or> accepts (day_of_week sp) (day_of_week_of r)
          else accepts (day_of_month sp) (day_of_month_of r) \<and> accepts (day_of_week sp) (day_of_week_of r))
      \<and> (\<forall>u. t < u \<and> u < r \<and> u mod 60 = 0 \<longrightarrow> \<not> matches sp u))
   \<and> ((\<exists>k < search_horizon. matches sp (first_candidate t + 60 * k)) \<longrightarrow>
         (\<exists>r'. next_instant sp t = Inr r'))
   \<and> ((\<forall>k < search_horizon. \<not> matches sp (first_candidate t + 60 * k)) \<longrightarrow>
         next_instant sp t = Inl SearchExhausted)"
proof -
  have 1: "next_instant sp t = Inr r \<longrightarrow>
      t < r \<and> r mod 60 = 0
      \<and> accepts (minute sp) (minute_of r) \<and> accepts (hour sp) (hour_of r)
      \<and> accepts (month sp) (month_of r)
      \<and> (if day_of_month sp \<noteq> Wildcard \<and> day_of_week sp \<noteq> Wildcard
          then accepts (day_of_month sp) (day_of_month_of r) \<or> accepts (day_of_week sp) (day_of_week_of r)
          else accepts (day_of_month sp) (day_of_month_of r) \<and> accepts (day_of_week sp) (day_of_week_of r))
      \<and> (\<forall>u. t < u \<and> u < r \<and> u mod 60 = 0 \<longrightarrow> \<not> matches sp u)"
  proof
    assume a: "next_instant sp t = Inr r"
    note n = next_instant_Inr [OF a]
    from n(3) have "accepts (minute sp) (minute_of r) \<and> accepts (hour sp) (hour_of r)
      \<and> accepts (month sp) (month_of r)
      \<and> (if day_of_month sp \<noteq> Wildcard \<and> day_of_week sp \<noteq> Wildcard
          then accepts (day_of_month sp) (day_of_month_of r) \<or> accepts (day_of_week sp) (day_of_week_of r)
          else accepts (day_of_month sp) (day_of_month_of r) \<and> accepts (day_of_week sp) (day_of_week_of r))"
      by (simp add: matches_def day_matches_def)
    with n(1,2,5) show "t < r \<and> r mod 60 = 0
      \<and> accepts (minute sp) (minute_of r) \<and> accepts (hour sp) (hour_of r)
      \<and> accepts (month sp) (month_of r)
      \<and> (if day_of_month sp \<noteq> Wildcard \<and> day_of_week sp \<noteq> Wildcard
          then accepts (day_of_month sp) (day_of_month_of r) \<or> accepts (day_of_week sp) (day_of_week_of r)
          else accepts (day_of_month sp) (day_of_month_of r) \<and> accepts (day_of_week sp) (day_of_week_of r))
      \<and> (\<forall>u. t < u \<and> u < r \<and> u mod 60 = 0 \<longrightarrow> \<not> matches sp u)"
      by blast
  qed
  have 3: "(\<forall>k < search_horizon. \<not> matches sp (first_candidate t + 60 * k)) \<longrightarrow>
         next_instant sp t = Inl SearchExhausted"
    by (simp add: next_instant_Inl)
  have 2: "(\<exists>k < search_horizon. matches sp (first_candidate t + 60 * k)) \<longrightarrow>
         (\<exists>r'. next_instant sp t = Inr r')"
  proof
    assume "\<exists>k < search_horizon. matches sp (first_candidate t + 60 * k)"
    then have "next_instant sp t \<noteq> Inl SearchExhausted" by (simp add: next_instant_Inl)
    then show "\<exists>r'. next_instant sp t = Inr r'"
      by (cases "next_instant sp t") (auto intro: engine_error.exhaust)
  qed
  from 1 2 3 show ?thesis by blast
qed

theorem next_instant_earliest_match_witness:
  "next_instant second_or_thursday 30 = Inr 60 \<and> (30::nat) < 60
   \<and> accepts (minute second_or_thursday) (minute_of 60)
   \<and> accepts (day_of_week second_or_thursday) (day_of_week_of 60)
   \<and> matches second_or_thursday (first_candidate 30 + 60 * 0)"
proof -
  have c0: "civil 0 = (1970, 1, 1)" by (simp add: civil_def)
  have m: "matches second_or_thursday (first_candidate 30)"
    by (simp add: first_candidate_def matches_def day_matches_def second_or_thursday_def
        day_of_month_of_def day_of_week_of_def c0)
  from next_instant_hit [OF m] have n: "next_instant second_or_thursday 30 = Inr 60"
    by (simp add: first_candidate_def)
  from next_instant_earliest_match [of second_or_thursday 30 60] n m show ?thesis
    by (simp add: second_or_thursday_def day_of_week_of_def)
qed

end
